theory Spec2Isabelle
  imports Main "HOL-Library.Sublist"
begin

section \<open>Strings and paths\<close>

text \<open>
  Paths and URLs are Python \<open>str\<close> values; they are modelled as \<open>string\<close>.
  \<open>str.startswith\<close> is \<open>prefix\<close> and \<open>str.endswith\<close> is \<open>suffix\<close>.

  \<open>py_replace old new s\<close> is \<open>s.replace(old, new)\<close>: the occurrences of \<open>old\<close>
  are found from the left and do not overlap. For an empty \<open>old\<close> Python puts \<open>new\<close>
  before every character and at the end.
\<close>

function py_replace :: "string \<Rightarrow> string \<Rightarrow> string \<Rightarrow> string" where
  "py_replace old new s =
     (if old = [] then new @ concat (map (\<lambda>c. c # new) s)
      else if s = [] then []
      else if prefix old s then new @ py_replace old new (drop (length old) s)
      else hd s # py_replace old new (tl s))"
  by pat_completeness auto
termination
  by (relation "measure (\<lambda>(old, new, s). length s)") auto

declare py_replace.simps [simp del]

text \<open>
  \<open>py_split sep s\<close> is \<open>s.split(sep)\<close> for a separator that is not empty (the only
  call site passes \<open>region + "/"\<close>): the pieces between the occurrences of \<open>sep\<close>,
  found from the left without overlap. \<open>piece\<close> is the piece being read.
\<close>

function split_from :: "string \<Rightarrow> string \<Rightarrow> string \<Rightarrow> string list" where
  "split_from sep piece s =
     (if s = [] then [piece]
      else if sep \<noteq> [] \<and> prefix sep s then piece # split_from sep [] (drop (length sep) s)
      else split_from sep (piece @ [hd s]) (tl s))"
  by pat_completeness auto
termination
  by (relation "measure (\<lambda>(sep, piece, s). length s)") auto

declare split_from.simps [simp del]

definition py_split :: "string \<Rightarrow> string \<Rightarrow> string list" where
  "py_split sep s = split_from sep [] s"

text \<open>
  \<open>os_path_join a p\<close> is \<open>os.path.join(a, *p)\<close> of \<open>posixpath\<close>: a component that
  starts with a slash discards what was joined before it.
\<close>

fun os_path_join :: "string \<Rightarrow> string list \<Rightarrow> string" where
  "os_path_join path [] = path"
| "os_path_join path (b # p) =
     os_path_join
       (if prefix ''/'' b then b
        else if path = [] \<or> suffix ''/'' path then path @ b
        else path @ ''/'' @ b) p"

text \<open>
  \<open>path_split p\<close> is \<open>posixpath.split(p)\<close>: the part before the last slash, with
  its trailing slashes removed unless it is all slashes, and the part after it.
  \<open>dirname\<close> is the first of the two.
\<close>

definition path_split :: "string \<Rightarrow> string \<times> string" where
  "path_split p =
     (let tail = rev (takeWhile (\<lambda>c. c \<noteq> CHR ''/'') (rev p));
          head = take (length p - length tail) p
      in (if head \<noteq> [] \<and> \<not> list_all (\<lambda>c. c = CHR ''/'') head
          then rev (dropWhile (\<lambda>c. c = CHR ''/'') (rev head))
          else head,
          tail))"

definition dirname :: "string \<Rightarrow> string" where
  "dirname p = fst (path_split p)"

section \<open>The local file system\<close>

text \<open>
  The local store maps a path to what is there: a regular file with its bytes, or a
  directory. Paths are compared as strings (\<open>a/b\<close> and \<open>a//b\<close> are two keys); the
  current directory \<open>.\<close> and the root \<open>/\<close> are always directories and the empty
  path never exists. \<open>os.path.getsize\<close> of a directory is what \<open>stat\<close> reports for
  it, 4096 on the usual Linux file systems.
\<close>

datatype error = FileNotFoundError | FileExistsError | NotADirectoryError | IsADirectoryError

datatype node = File string | Dir

type_synonym fs = "string \<rightharpoonup> node"

definition DIR_SIZE :: nat where
  "DIR_SIZE = 4096"

definition size_of :: "node \<Rightarrow> nat" where
  "size_of n = (case n of File bytes \<Rightarrow> length bytes | Dir \<Rightarrow> DIR_SIZE)"

definition node_at :: "fs \<Rightarrow> string \<Rightarrow> node option" where
  "node_at store p =
     (if p = [] then None
      else if p = ''.'' \<or> p = ''/'' then Some Dir
      else store p)"

definition path_exists :: "fs \<Rightarrow> string \<Rightarrow> bool" where
  "path_exists store p = (node_at store p \<noteq> None)"

definition isdir :: "fs \<Rightarrow> string \<Rightarrow> bool" where
  "isdir store p = (node_at store p = Some Dir)"

text \<open>
  \<open>os.mkdir\<close>: the name must not exist and its parent must be a directory (a name
  without a slash is made in the current directory).
\<close>

definition mkdir :: "string \<Rightarrow> fs \<Rightarrow> error + fs" where
  "mkdir name store =
     (if name = [] then Inl FileNotFoundError
      else if path_exists store name then Inl FileExistsError
      else if dirname name = [] then Inr (store(name \<mapsto> Dir))
      else (case node_at store (dirname name) of
              None \<Rightarrow> Inl FileNotFoundError
            | Some (File bytes) \<Rightarrow> Inl NotADirectoryError
            | Some Dir \<Rightarrow> Inr (store(name \<mapsto> Dir))))"

text \<open>
  \<open>os.makedirs(name, exist_ok=True)\<close>, as the standard library has it: split the
  name (twice when it ends with a slash), make the head first when it does not exist
  (a \<open>FileExistsError\<close> of that call is passed over), return if the tail is \<open>.\<close>,
  then \<open>mkdir\<close> the name, where an error is passed over when the name is a
  directory. The result is the error raised, if any, and the store as it is then.
\<close>

definition makedirs_split :: "string \<Rightarrow> string \<times> string" where
  "makedirs_split name =
     (if snd (path_split name) = [] then path_split (fst (path_split name))
      else path_split name)"

definition mkdir_exist_ok :: "string \<Rightarrow> fs \<Rightarrow> error option \<times> fs" where
  "mkdir_exist_ok name store =
     (case mkdir name store of
        Inr store1 \<Rightarrow> (None, store1)
      | Inl e \<Rightarrow> if isdir store name then (None, store) else (Some e, store))"

function makedirs :: "string \<Rightarrow> fs \<Rightarrow> error option \<times> fs" where
  "makedirs name store =
     (if fst (makedirs_split name) \<noteq> [] \<and> snd (makedirs_split name) \<noteq> []
         \<and> \<not> path_exists store (fst (makedirs_split name))
      then (case makedirs (fst (makedirs_split name)) store of
              (err, store1) \<Rightarrow>
                if err \<noteq> None \<and> err \<noteq> Some FileExistsError then (err, store1)
                else if snd (makedirs_split name) = ''.'' then (None, store1)
                else mkdir_exist_ok name store1)
      else mkdir_exist_ok name store)"
  by pat_completeness auto
termination
proof (relation "measure (\<lambda>(name, store). length name)")
  show "wf (measure (\<lambda>(name, store). length name))"
    by simp
next
  fix name :: string and store :: fs
  assume a: "fst (makedirs_split name) \<noteq> [] \<and> snd (makedirs_split name) \<noteq> []
         \<and> \<not> path_exists store (fst (makedirs_split name))"
  have split_le: "length (fst (path_split q)) + length (snd (path_split q)) \<le> length q" for q
  proof -
    let ?tail = "rev (takeWhile (\<lambda>c. c \<noteq> CHR ''/'') (rev q))"
    let ?head = "take (length q - length ?tail) q"
    have t: "length ?tail \<le> length q"
      using length_takeWhile_le [of "\<lambda>c. c \<noteq> CHR ''/''" "rev q"] by simp
    have "length (rev (dropWhile (\<lambda>c. c = CHR ''/'') (rev ?head))) \<le> length ?head"
      using length_dropWhile_le [of "\<lambda>c. c = CHR ''/''" "rev ?head"] by simp
    then have "length (fst (path_split q)) \<le> length ?head"
      by (simp add: path_split_def Let_def)
    moreover have "snd (path_split q) = ?tail"
      by (simp add: path_split_def Let_def)
    moreover have "length ?head + length ?tail \<le> length q"
      using t by simp
    ultimately show ?thesis
      by simp
  qed
  have "length (fst (makedirs_split name)) + length (snd (makedirs_split name)) \<le> length name"
  proof (cases "snd (path_split name) = []")
    case True
    have "length (fst (path_split (fst (path_split name)))) + length (snd (path_split (fst (path_split name))))
            \<le> length (fst (path_split name))"
      by (rule split_le)
    also have "\<dots> \<le> length name"
      using split_le [of name] by simp
    finally show ?thesis
      using True by (simp add: makedirs_split_def)
  next
    case False
    then show ?thesis
      using split_le [of name] by (simp add: makedirs_split_def)
  qed
  moreover have "1 \<le> length (snd (makedirs_split name))"
    using a by (cases "snd (makedirs_split name)") simp_all
  ultimately have "length (fst (makedirs_split name)) < length name"
    by linarith
  then show "((fst (makedirs_split name), store), (name, store)) \<in> measure (\<lambda>(name, store). length name)"
    by simp
qed

declare makedirs.simps [simp del]

text \<open>\<open>grows store store'\<close>: \<open>store'\<close> is \<open>store\<close> with directories added.\<close>

definition grows :: "fs \<Rightarrow> fs \<Rightarrow> bool" where
  "grows store store' = (\<forall>p. store' p = store p \<or> (store p = None \<and> store' p = Some Dir))"

text \<open>
  Opening a file for writing fails on a directory. \<open>wb\<close> empties or creates the file,
  \<open>ab\<close> keeps what is there; \<open>bytes\<close> is what gets written before the file is closed.
  Every call site has run \<open>makedirs\<close> on the parent directory before, so the parent
  is there. \<open>os.remove\<close> removes a regular file only.
\<close>

definition open_wb :: "string \<Rightarrow> string \<Rightarrow> fs \<Rightarrow> error + fs" where
  "open_wb path bytes store =
     (if isdir store path then Inl IsADirectoryError
      else Inr (store(path \<mapsto> File bytes)))"

definition open_ab :: "string \<Rightarrow> string \<Rightarrow> fs \<Rightarrow> error + fs" where
  "open_ab path bytes store =
     (case node_at store path of
        Some Dir \<Rightarrow> Inl IsADirectoryError
      | Some (File old) \<Rightarrow> Inr (store(path \<mapsto> File (old @ bytes)))
      | None \<Rightarrow> Inr (store(path \<mapsto> File bytes)))"

definition os_remove :: "string \<Rightarrow> fs \<Rightarrow> error + fs" where
  "os_remove path store =
     (case node_at store path of
        None \<Rightarrow> Inl FileNotFoundError
      | Some Dir \<Rightarrow> Inl IsADirectoryError
      | Some (File bytes) \<Rightarrow> Inr (store(path := None)))"

section \<open>The world: local store, requests sent, waits\<close>

text \<open>
  Every GET request a download function issues is appended to \<open>sent\<close>, with the
  offset of its \<open>Range\<close> header if it has one, and every \<open>sleep\<close> to \<open>slept\<close> (in
  seconds). The remote side is a function from the number of requests sent so far and
  the request to what comes back: \<open>Raised\<close> when the request raises (timeout,
  connection reset), or a reply with its status code, the bytes of the body that
  arrive, and whether the stream raises after those bytes.

  A function that can raise returns \<open>Inl\<close> of the error, together with the world as
  the exception leaves it.
\<close>

datatype request = GET string "nat option"

datatype response = Raised | Reply nat string bool

type_synonym remote = "nat \<Rightarrow> request \<Rightarrow> response"

record world =
  files :: fs
  sent :: "request list"
  slept :: "nat list"

definition send :: "remote \<Rightarrow> request \<Rightarrow> world \<Rightarrow> response \<times> world" where
  "send srv req w = (srv (length (sent w)) req, w\<lparr>sent := sent w @ [req]\<rparr>)"

definition sleep :: "nat \<Rightarrow> world \<Rightarrow> world" where
  "sleep secs w = w\<lparr>slept := slept w @ [secs]\<rparr>"

section \<open>modules/file_exisitance_checking.py\<close>

definition LOCAL_FOLDER :: string where
  "LOCAL_FOLDER = ''./argo_float_data''"

definition BASE_URL :: string where
  "BASE_URL = ''https://www.ncei.noaa.gov/data/oceans/argo/gadr/data/''"

definition RETRIES :: nat where
  "RETRIES = 0"

text \<open>\<open>os.path.exists(local_path) and os.path.getsize(local_path) > 0\<close>.\<close>

definition is_file_valid :: "fs \<Rightarrow> string \<Rightarrow> bool" where
  "is_file_valid store local_path =
     (case node_at store local_path of None \<Rightarrow> False | Some n \<Rightarrow> size_of n > 0)"

definition clean_file_path :: "string \<Rightarrow> string" where
  "clean_file_path file_path =
     (let file_path1 =
            (if prefix ''data/data/'' file_path then drop (length ''data/'') file_path
             else if prefix ''data/'' file_path then drop (length ''data/'') file_path
             else file_path)
      in if \<not> suffix ''.nc'' file_path1 then py_replace ''.nnc'' ''.nc'' file_path1
         else file_path1)"

text \<open>
  \<open>query_index\<close> receives the rows the SQL query returned (the \<open>file_path\<close> column);
  the database itself is outside the model. Python builds a set and lists it in an
  unspecified order; the model lists it in the order \<open>remdups\<close> leaves.
\<close>

definition query_index :: "string list \<Rightarrow> string list" where
  "query_index results = remdups (map clean_file_path results)"

text \<open>
  The loop \<open>for _ in range(retries)\<close> of \<open>download_nc_file\<close> is the recursion on
  \<open>retries\<close>. A 200 reply opens the file for writing (which empties it) and writes the
  chunks that arrive; an exception anywhere in the round is swallowed, followed by a
  one second sleep. Any other status than 200 and 404 goes to the next round at once.
\<close>

fun nc_rounds :: "remote \<Rightarrow> string \<Rightarrow> string \<Rightarrow> nat \<Rightarrow> world \<Rightarrow> bool \<times> world" where
  "nc_rounds srv url local_path 0 w = (False, w)"
| "nc_rounds srv url local_path (Suc retries) w =
     (case send srv (GET url None) w of
        (Raised, w1) \<Rightarrow> nc_rounds srv url local_path retries (sleep 1 w1)
      | (Reply status body aborts, w1) \<Rightarrow>
          if status = 200 then
            (case open_wb local_path body (files w1) of
               Inl e \<Rightarrow> nc_rounds srv url local_path retries (sleep 1 w1)
             | Inr store2 \<Rightarrow>
                 if aborts then nc_rounds srv url local_path retries (sleep 1 (w1\<lparr>files := store2\<rparr>))
                 else (True, w1\<lparr>files := store2\<rparr>))
          else if status = 404 then (False, w1)
          else nc_rounds srv url local_path retries w1)"

text \<open>
  \<open>download_nc_file\<close> calls \<open>os.makedirs\<close> on the directory part of the local path
  first, outside the \<open>try\<close>: an error there is raised to the caller.
\<close>

definition download_nc_file ::
  "remote \<Rightarrow> string \<Rightarrow> string \<Rightarrow> nat \<Rightarrow> world \<Rightarrow> (error + bool) \<times> world" where
  "download_nc_file srv url local_path retries w =
     (case makedirs (dirname local_path) (files w) of
        (Some e, store1) \<Rightarrow> (Inl e, w\<lparr>files := store1\<rparr>)
      | (None, store1) \<Rightarrow>
          (case nc_rounds srv url local_path retries (w\<lparr>files := store1\<rparr>) of
             (success, w1) \<Rightarrow> (Inr success, w1)))"

text \<open>
  The replies after which the loop of \<open>download_nc_file\<close> goes on to its next round
  when the local path is not a directory: an exception at the request or in the
  stream, or a status other than 200 and 404.
\<close>

definition retried :: "response \<Rightarrow> bool" where
  "retried r =
     (case r of
        Raised \<Rightarrow> True
      | Reply status body aborts \<Rightarrow> if status = 200 then aborts else status \<noteq> 404)"

definition local_path_of :: "string \<Rightarrow> string \<Rightarrow> string" where
  "local_path_of region file_path =
     os_path_join LOCAL_FOLDER [region, last (py_split (region @ ''/'') file_path)]"

text \<open>The planning loop of \<open>fetch_data\<close>: it returns \<open>(download_tasks, local_paths)\<close>.\<close>

fun plan :: "fs \<Rightarrow> string \<Rightarrow> string list \<Rightarrow> (string \<times> string) list \<times> string list" where
  "plan store region [] = ([], [])"
| "plan store region (file_path # rest) =
     (let local_path = local_path_of region file_path;
          url = BASE_URL @ file_path;
          (download_tasks, local_paths) = plan store region rest
      in ((if \<not> is_file_valid store local_path then [(url, local_path)] else []) @ download_tasks,
          local_path # local_paths))"

text \<open>
  \<open>asyncio.gather\<close> over the tasks, each called with the budget \<open>retries\<close>. The model
  runs the tasks in task order, all of them (one that raises does not stop the
  others), and raises the first error.
\<close>

fun gather :: "nat \<Rightarrow> remote \<Rightarrow> (string \<times> string) list \<Rightarrow> world \<Rightarrow> (error + bool list) \<times> world" where
  "gather retries srv [] w = (Inr [], w)"
| "gather retries srv ((url, path) # tasks) w =
     (case download_nc_file srv url path retries w of
        (r, w1) \<Rightarrow>
          (case gather retries srv tasks w1 of
             (rs, w2) \<Rightarrow>
               ((case r of
                   Inl e \<Rightarrow> Inl e
                 | Inr success \<Rightarrow>
                     (case rs of Inl e \<Rightarrow> Inl e | Inr results \<Rightarrow> Inr (success # results))),
                w2)))"

text \<open>The loop over \<open>enumerate(results)\<close>: \<open>(downloaded_count, failed_downloads)\<close>.\<close>

fun tally :: "(bool \<times> string \<times> string) list \<Rightarrow> int \<times> string list" where
  "tally [] = (0, [])"
| "tally ((success, task) # rest) =
     (let (downloaded_count, failed_downloads) = tally rest
      in if success then (downloaded_count + 1, failed_downloads)
         else (downloaded_count, fst task # failed_downloads))"

record run_summary =
  total_files :: int
  already_existing :: int
  downloaded_count :: int
  failed_count :: int

text \<open>
  \<open>fetch_data\<close> returns the list of local paths; the summary is what it prints, and
  nothing is printed on the early return for an empty query result. It calls
  \<open>download_nc_file\<close> without a budget, so that the module constant \<open>RETRIES\<close> is the
  budget; \<open>fetch_data_with\<close> is the function with that constant as a parameter.
\<close>

definition fetch_data_with ::
  "nat \<Rightarrow> remote \<Rightarrow> string \<Rightarrow> string list \<Rightarrow> world
     \<Rightarrow> (error + run_summary option \<times> string list) \<times> world" where
  "fetch_data_with retries srv region rows w =
     (let files = query_index rows;
          total = int (length files)
      in if total = 0 then (Inr (None, []), w)
         else
           (let (download_tasks, local_paths) = plan (world.files w) region files;
                existing = total - int (length download_tasks)
            in if download_tasks \<noteq> [] then
                 (case gather retries srv download_tasks w of
                    (Inl e, w1) \<Rightarrow> (Inl e, w1)
                  | (Inr results, w1) \<Rightarrow>
                      (let (downloaded, failed_downloads) = tally (zip results download_tasks)
                       in (Inr (Some \<lparr>total_files = total, already_existing = existing,
                                      downloaded_count = downloaded,
                                      failed_count = int (length failed_downloads)\<rparr>,
                                local_paths), w1)))
               else (Inr (Some \<lparr>total_files = total, already_existing = existing,
                                downloaded_count = 0, failed_count = 0\<rparr>,
                          local_paths), w)))"

definition fetch_data ::
  "remote \<Rightarrow> string \<Rightarrow> string list \<Rightarrow> world
     \<Rightarrow> (error + run_summary option \<times> string list) \<times> world" where
  "fetch_data = fetch_data_with RETRIES"

text \<open>
  \<open>check_and_download_files\<close> runs \<open>fetch_data\<close> and returns its list, or the empty
  list when \<open>fetch_data\<close> raises; the workflow takes an empty list as the failure of
  the step.
\<close>

definition check_and_download_files :: "remote \<Rightarrow> string \<Rightarrow> string list \<Rightarrow> world \<Rightarrow> string list \<times> world" where
  "check_and_download_files srv region rows w =
     (case fetch_data srv region rows w of
        (Inl e, w1) \<Rightarrow> ([], w1)
      | (Inr (summary, local_paths), w1) \<Rightarrow> (if local_paths \<noteq> [] then local_paths else [], w1))"

section \<open>modules/index_file_download.py\<close>

definition MAX_RETRIES :: nat where
  "MAX_RETRIES = 3"

text \<open>
  What \<open>requests.head\<close> gives: it raises, or replies with a status code and, when the
  header is there and is a number, the \<open>content-length\<close>. (A header that is not a
  number makes \<open>int\<close> raise inside the same \<open>try\<close>, which is \<open>HeadRaised\<close> here.)
\<close>

datatype head_response = HeadRaised | HeadReply nat "int option"

definition is_file_complete :: "head_response \<Rightarrow> fs \<Rightarrow> string \<Rightarrow> bool" where
  "is_file_complete head store file_path =
     (case node_at store file_path of
        None \<Rightarrow> False
      | Some n \<Rightarrow>
          (case head of
             HeadRaised \<Rightarrow> False
           | HeadReply status content_length \<Rightarrow>
               if status = 200 then
                 (let server_size = (case content_length of None \<Rightarrow> 0 | Some k \<Rightarrow> k);
                      local_size = int (size_of n)
                  in if server_size > 0 \<and> local_size = server_size then True
                     else if server_size = 0 \<and> local_size = 0 then True
                     else False)
               else False))"

text \<open>\<open>Response.raise_for_status\<close> raises for the status codes 400 to 599.\<close>

definition raise_for_status :: "nat \<Rightarrow> bool" where
  "raise_for_status status = (400 \<le> status \<and> status < 600)"

datatype outcome = Skipped | Downloaded | Failed

text \<open>
  The body of the \<open>try\<close> of one attempt of \<open>download_file\<close>. The result is \<open>True\<close>
  when the body reaches its \<open>return\<close> and \<open>False\<close> when it raises. A status that is
  neither 416, 200, 206 nor an error writes nothing, and \<open>os.path.getsize\<close> then
  raises exactly when there is nothing at the path.
\<close>

definition attempt :: "remote \<Rightarrow> string \<Rightarrow> string \<Rightarrow> world \<Rightarrow> bool \<times> world" where
  "attempt srv url save_path w =
     (let existing_size = (case node_at (files w) save_path of None \<Rightarrow> 0 | Some n \<Rightarrow> size_of n);
          range = (if existing_size > 0 then Some existing_size else None);
          open_mode = (if existing_size > 0 then open_ab else open_wb)
      in case send srv (GET url range) w of
           (Raised, w1) \<Rightarrow> (False, w1)
         | (Reply status body aborts, w1) \<Rightarrow>
             if status = 416 then
               (case (if path_exists (files w1) save_path then os_remove save_path (files w1)
                      else Inr (files w1)) of
                  Inl e \<Rightarrow> (False, w1)
                | Inr store2 \<Rightarrow>
                    (case send srv (GET url None) (w1\<lparr>files := store2\<rparr>) of
                       (Raised, w3) \<Rightarrow> (False, w3)
                     | (Reply status2 body2 aborts2, w3) \<Rightarrow>
                         if raise_for_status status2 then (False, w3)
                         else (case open_wb save_path body2 (files w3) of
                                 Inl e \<Rightarrow> (False, w3)
                               | Inr store4 \<Rightarrow> (\<not> aborts2, w3\<lparr>files := store4\<rparr>))))
             else if status = 200 \<or> status = 206 then
               (case open_mode save_path body (files w1) of
                  Inl e \<Rightarrow> (False, w1)
                | Inr store2 \<Rightarrow> (\<not> aborts, w1\<lparr>files := store2\<rparr>))
             else if raise_for_status status then (False, w1)
             else (path_exists (files w1) save_path, w1))"

text \<open>
  The \<open>except\<close> branch removes the file if there is one (an error of \<open>os.remove\<close> is
  passed over) and sleeps five seconds.
\<close>

definition cleanup :: "string \<Rightarrow> world \<Rightarrow> world" where
  "cleanup save_path w =
     sleep 5 (case os_remove save_path (files w) of
                Inl e \<Rightarrow> w
              | Inr store1 \<Rightarrow> w\<lparr>files := store1\<rparr>)"

text \<open>
  The loop \<open>for attempt in range(1, MAX_RETRIES + 1)\<close>, by the number of attempts
  left.
\<close>

fun attempts :: "remote \<Rightarrow> string \<Rightarrow> string \<Rightarrow> nat \<Rightarrow> world \<Rightarrow> outcome \<times> world" where
  "attempts srv url save_path 0 w = (Failed, w)"
| "attempts srv url save_path (Suc left) w =
     (case attempt srv url save_path w of
        (True, w1) \<Rightarrow> (Downloaded, w1)
      | (False, w1) \<Rightarrow> attempts srv url save_path left (cleanup save_path w1))"

text \<open>
  The replies that make an attempt raise whatever the local state: an exception at the
  request, a broken stream, or an error status other than 416.
\<close>

definition failing :: "response \<Rightarrow> bool" where
  "failing r =
     (case r of
        Raised \<Rightarrow> True
      | Reply status body aborts \<Rightarrow>
          if status = 200 \<or> status = 206 then aborts
          else status \<noteq> 416 \<and> raise_for_status status)"

text \<open>
  \<open>download_file\<close> returns nothing; the outcome is the message it prints. It calls
  \<open>os.makedirs\<close> first, outside the \<open>try\<close>.
\<close>

definition download_file ::
  "head_response \<Rightarrow> remote \<Rightarrow> string \<Rightarrow> string \<Rightarrow> world \<Rightarrow> (error + outcome) \<times> world" where
  "download_file head srv url save_path w =
     (case makedirs (dirname save_path) (files w) of
        (Some e, store1) \<Rightarrow> (Inl e, w\<lparr>files := store1\<rparr>)
      | (None, store1) \<Rightarrow>
          if is_file_complete head store1 save_path then (Inr Skipped, w\<lparr>files := store1\<rparr>)
          else (case attempts srv url save_path MAX_RETRIES (w\<lparr>files := store1\<rparr>) of
                  (result, w1) \<Rightarrow> (Inr result, w1)))"

section \<open>modules/netcdf_file_dowload.py\<close>

text \<open>
  \<open>UltraFastArgoDownloader.download_file\<close>: everything is inside one \<open>try\<close> whose
  \<open>except\<close> returns \<open>False\<close>; the directory is made first, an existing path is
  skipped, and there is one request and no retry.
\<close>

definition scanner_download_file :: "remote \<Rightarrow> string \<Rightarrow> string \<Rightarrow> world \<Rightarrow> bool \<times> world" where
  "scanner_download_file srv file_url local_path w =
     (case makedirs (dirname local_path) (files w) of
        (Some e, store1) \<Rightarrow> (False, w\<lparr>files := store1\<rparr>)
      | (None, store1) \<Rightarrow>
          if path_exists store1 local_path then (True, w\<lparr>files := store1\<rparr>)
          else (case send srv (GET file_url None) (w\<lparr>files := store1\<rparr>) of
                  (Raised, w1) \<Rightarrow> (False, w1)
                | (Reply status body aborts, w1) \<Rightarrow>
                    if status = 200 then
                      (case open_wb local_path body (files w1) of
                         Inl e \<Rightarrow> (False, w1)
                       | Inr store2 \<Rightarrow> (\<not> aborts, w1\<lparr>files := store2\<rparr>))
                    else (False, w1)))"

text \<open>\<open>str(year)\<close> for an integer.\<close>

fun str_nat :: "nat \<Rightarrow> string" where
  "str_nat n =
     (if n < 10 then [char_of (48 + n)]
      else str_nat (n div 10) @ [char_of (48 + n mod 10)])"

declare str_nat.simps [simp del]

definition str_int :: "int \<Rightarrow> string" where
  "str_int i = (if i < 0 then ''-'' @ str_nat (nat (- i)) else str_nat (nat i))"

text \<open>
  A directory listing after \<open>fetch_url\<close> and \<open>parse_apache_directory_fast\<close>: the
  \<open>(href, name)\<close> pairs of the anchors of data files and of the anchors of
  subdirectories. \<open>None\<close> stands for a listing that could not be fetched or was empty.
  The regular expressions themselves are outside the model.
\<close>

type_synonym page = "(string \<times> string) list \<times> (string \<times> string) list"

definition scan_folder :: "(string \<Rightarrow> page option) \<Rightarrow> string \<Rightarrow> string \<Rightarrow> int \<Rightarrow> string \<Rightarrow> (string \<times> string) list" where
  "scan_folder pages region folder_url year folder_name =
     (case pages folder_url of
        None \<Rightarrow> []
      | Some (nc_files, subdirs) \<Rightarrow>
          map (\<lambda>(href, name).
                 (folder_url @ href,
                  os_path_join ''argo_float_data'' [region, str_int year, folder_name, name])) nc_files
          @ concat (map (\<lambda>(subdir_href, subdir_name).
                 (let subdir_url = folder_url @ subdir_href
                  in case pages subdir_url of
                       None \<Rightarrow> []
                     | Some (sub_files, _) \<Rightarrow>
                         map (\<lambda>(href, name).
                                (subdir_url @ href,
                                 os_path_join ''argo_float_data''
                                   [region, str_int year, folder_name, subdir_name, name])) sub_files))
               subdirs))"

text \<open>
  Step 1 of \<open>scan_and_download\<close>: the list \<open>all_files\<close>. Step 2 makes one download
  task of every entry of that list, in order.
\<close>

fun scan_years :: "(string \<Rightarrow> page option) \<Rightarrow> string \<Rightarrow> string \<Rightarrow> int list \<Rightarrow> (string \<times> string) list" where
  "scan_years pages base_url region [] = []"
| "scan_years pages base_url region (year # years) =
     (let year_url = base_url @ region @ ''/'' @ str_int year @ ''/''
      in case pages year_url of
           None \<Rightarrow> []
         | Some (nc_files, dirs) \<Rightarrow>
             map (\<lambda>(href, name).
                    (year_url @ href,
                     os_path_join ''argo_float_data'' [region, str_int year, name])) nc_files
             @ concat (map (\<lambda>(dir_href, dir_name).
                    scan_folder pages region (year_url @ dir_href) year dir_name) dirs))
     @ scan_years pages base_url region years"

definition scan_download_tasks :: "(string \<Rightarrow> page option) \<Rightarrow> string \<Rightarrow> int list \<Rightarrow> (string \<times> string) list" where
  "scan_download_tasks pages region years =
     scan_years pages ''https://www.ncei.noaa.gov/data/oceans/argo/gadr/data/'' region years"

section \<open>Facts about the file system\<close>

lemma grows_refl: "grows store store"
  by (simp add: grows_def)

lemma grows_at: "grows a b \<Longrightarrow> b p = a p \<or> (a p = None \<and> b p = Some Dir)"
  by (simp add: grows_def)

lemma grows_trans:
  assumes "grows a b" and "grows b c"
  shows "grows a c"
  unfolding grows_def
proof
  fix p
  show "c p = a p \<or> (a p = None \<and> c p = Some Dir)"
    using grows_at [OF assms(1), of p] grows_at [OF assms(2), of p] by auto
qed



lemma grows_file:
  assumes "grows a b"
  shows "b p = Some (File x) \<longleftrightarrow> a p = Some (File x)"
  using grows_at [OF assms, of p] by auto

lemma mkdir_Inr:
  assumes "mkdir name store = Inr store1"
  shows "store1 = store(name \<mapsto> Dir) \<and> store name = None"
proof -
  have not_empty: "name \<noteq> []"
    using assms by (auto simp: mkdir_def)
  have fresh: "\<not> path_exists store name"
    using assms not_empty by (auto simp: mkdir_def split: if_splits)
  have "node_at store name = None"
    using fresh by (simp add: path_exists_def)
  then have none: "store name = None"
    using not_empty by (simp add: node_at_def split: if_splits)
  have "store1 = store(name \<mapsto> Dir)"
  proof (cases "dirname name = []")
    case True
    then show ?thesis
      using assms not_empty fresh by (simp add: mkdir_def)
  next
    case False
    show ?thesis
    proof (cases "node_at store (dirname name)")
      case None
      then show ?thesis
        using assms not_empty fresh False by (simp add: mkdir_def)
    next
      case (Some n)
      then show ?thesis
        using assms not_empty fresh False by (cases n) (simp_all add: mkdir_def)
    qed
  qed
  then show ?thesis
    using none by simp
qed

lemma mkdir_grows: "mkdir name store = Inr store1 \<Longrightarrow> grows store store1"
  using mkdir_Inr [of name store store1] by (simp add: grows_def)

lemma mkdir_exist_ok_grows: "grows store (snd (mkdir_exist_ok name store))"
proof (cases "mkdir name store")
  case (Inl e)
  then show ?thesis
    by (simp add: mkdir_exist_ok_def grows_refl)
next
  case (Inr store1)
  then show ?thesis
    using mkdir_grows [OF Inr] by (simp add: mkdir_exist_ok_def)
qed

lemma makedirs_plain:
  assumes "\<not> (fst (makedirs_split name) \<noteq> [] \<and> snd (makedirs_split name) \<noteq> []
         \<and> \<not> path_exists store (fst (makedirs_split name)))"
  shows "makedirs name store = mkdir_exist_ok name store"
  by (subst makedirs.simps) (simp only: assms if_False)

lemma makedirs_nested:
  assumes "fst (makedirs_split name) \<noteq> [] \<and> snd (makedirs_split name) \<noteq> []
         \<and> \<not> path_exists store (fst (makedirs_split name))"
    and "makedirs (fst (makedirs_split name)) store = (err, store1)"
  shows "makedirs name store =
           (if err \<noteq> None \<and> err \<noteq> Some FileExistsError then (err, store1)
            else if snd (makedirs_split name) = ''.'' then (None, store1)
            else mkdir_exist_ok name store1)"
  by (subst makedirs.simps) (simp only: assms if_True prod.case simp_thms)

lemma makedirs_grows: "grows store (snd (makedirs name store))"
proof (induction name store rule: makedirs.induct)
  case (1 name store)
  show ?case
  proof (cases "fst (makedirs_split name) \<noteq> [] \<and> snd (makedirs_split name) \<noteq> []
         \<and> \<not> path_exists store (fst (makedirs_split name))")
    case False
    then show ?thesis
      by (simp only: makedirs_plain [OF False] mkdir_exist_ok_grows)
  next
    case True
    obtain err store1 where r: "makedirs (fst (makedirs_split name)) store = (err, store1)"
      by (cases "makedirs (fst (makedirs_split name)) store")
    have g1: "grows store store1"
      using "1.IH" [OF True] r by simp
    have g2: "grows store (snd (mkdir_exist_ok name store1))"
      using g1 mkdir_exist_ok_grows [of store1 name] by (rule grows_trans)
    show ?thesis
      using g1 g2 by (simp add: makedirs_nested [OF True r])
  qed
qed

lemma makedirs_split_Nil: "makedirs_split [] = ([], [])"
  by (simp add: makedirs_split_def path_split_def)

lemma makedirs_empty: "makedirs [] store = (Some FileNotFoundError, store)"
proof -
  have "makedirs [] store = mkdir_exist_ok [] store"
    by (rule makedirs_plain) (simp add: makedirs_split_Nil)
  then show ?thesis
    by (simp add: mkdir_exist_ok_def mkdir_def isdir_def node_at_def)
qed

lemma dirname_bare: "dirname ''p'' = []"
  by code_simp

section \<open>Facts about the downloads of the catalog run\<close>

text \<open>One round of the loop: it ends with success, ends on a 404, or goes on.\<close>

lemma nc_rounds_Suc_cases:
  "(\<exists>store2.
      nc_rounds srv url lp (Suc n) w = (True, w\<lparr>sent := sent w @ [GET url None], files := store2\<rparr>))
   \<or> (\<exists>body aborts.
      srv (length (sent w)) (GET url None) = Reply 404 body aborts \<and>
      nc_rounds srv url lp (Suc n) w = (False, w\<lparr>sent := sent w @ [GET url None]\<rparr>))
   \<or> (\<exists>w2.
      sent w2 = sent w @ [GET url None] \<and>
      nc_rounds srv url lp (Suc n) w = nc_rounds srv url lp n w2)"
  (is "?finished \<or> ?not_found \<or> ?again")
proof (cases "srv (length (sent w)) (GET url None)")
  case Raised
  let ?w2 = "sleep 1 (w\<lparr>sent := sent w @ [GET url None]\<rparr>)"
  have "sent ?w2 = sent w @ [GET url None]"
    by (simp add: sleep_def)
  moreover have "nc_rounds srv url lp (Suc n) w = nc_rounds srv url lp n ?w2"
    using Raised by (simp add: send_def)
  ultimately have ?again
    by (intro exI [of _ ?w2] conjI)
  then show ?thesis
    by simp
next
  case (Reply status body aborts)
  let ?w1 = "w\<lparr>sent := sent w @ [GET url None]\<rparr>"
  show ?thesis
  proof (cases "status = 200")
    case False
    show ?thesis
    proof (cases "status = 404")
      case True
      have "nc_rounds srv url lp (Suc n) w = (False, ?w1)"
        using Reply True by (simp add: send_def)
      then have ?not_found
        using Reply True by simp
      then show ?thesis
        by simp
    next
      case nf: False
      have "sent ?w1 = sent w @ [GET url None]"
        by simp
      moreover have "nc_rounds srv url lp (Suc n) w = nc_rounds srv url lp n ?w1"
        using Reply False nf by (simp add: send_def)
      ultimately have ?again
        by (intro exI [of _ ?w1] conjI)
      then show ?thesis
        by simp
    qed
  next
    case True
    show ?thesis
    proof (cases "open_wb lp body (files w)")
      case (Inl e)
      let ?w2 = "sleep 1 ?w1"
      have "sent ?w2 = sent w @ [GET url None]"
        by (simp add: sleep_def)
      moreover have "nc_rounds srv url lp (Suc n) w = nc_rounds srv url lp n ?w2"
        using Reply True Inl by (simp add: send_def)
      ultimately have ?again
        by (intro exI [of _ ?w2] conjI)
      then show ?thesis
        by simp
    next
      case (Inr store2)
      show ?thesis
      proof (cases aborts)
        case True
        let ?w2 = "sleep 1 (?w1\<lparr>files := store2\<rparr>)"
        have "sent ?w2 = sent w @ [GET url None]"
          by (simp add: sleep_def)
        moreover have "nc_rounds srv url lp (Suc n) w = nc_rounds srv url lp n ?w2"
          using Reply \<open>status = 200\<close> Inr True by (simp add: send_def)
        ultimately have ?again
          by (intro exI [of _ ?w2] conjI)
        then show ?thesis
          by simp
      next
        case False
        have "nc_rounds srv url lp (Suc n) w = (True, ?w1\<lparr>files := store2\<rparr>)"
          using Reply \<open>status = 200\<close> Inr False by (simp add: send_def)
        then have ?finished
          by (intro exI [of _ store2])
        then show ?thesis
          by simp
      qed
    qed
  qed
qed

text \<open>The loop sends at most \<open>retries\<close> requests, each for the whole file.\<close>

lemma nc_rounds_sent:
  "\<exists>k. k \<le> n \<and> sent (snd (nc_rounds srv url lp n w)) = sent w @ replicate k (GET url None)"
proof (induction n arbitrary: w)
  case 0
  show ?case by simp
next
  case (Suc n)
  consider (finished) store2 where
      "nc_rounds srv url lp (Suc n) w = (True, w\<lparr>sent := sent w @ [GET url None], files := store2\<rparr>)"
  | (not_found) body aborts where
      "srv (length (sent w)) (GET url None) = Reply 404 body aborts"
      "nc_rounds srv url lp (Suc n) w = (False, w\<lparr>sent := sent w @ [GET url None]\<rparr>)"
  | (again) w2 where
      "sent w2 = sent w @ [GET url None]"
      "nc_rounds srv url lp (Suc n) w = nc_rounds srv url lp n w2"
    using nc_rounds_Suc_cases [of srv url lp n w] by (elim disjE exE conjE)
  then show ?case
  proof cases
    case (finished store2)
    then have "sent (snd (nc_rounds srv url lp (Suc n) w)) = sent w @ replicate (Suc 0) (GET url None)"
      by simp
    then show ?thesis
      by (intro exI [of _ "Suc 0"]) simp
  next
    case (not_found body aborts)
    then have "sent (snd (nc_rounds srv url lp (Suc n) w)) = sent w @ replicate (Suc 0) (GET url None)"
      by simp
    then show ?thesis
      by (intro exI [of _ "Suc 0"]) simp
  next
    case (again w2)
    obtain k where k: "k \<le> n"
        "sent (snd (nc_rounds srv url lp n w2)) = sent w2 @ replicate k (GET url None)"
      using Suc.IH [of w2] by blast
    have "sent (snd (nc_rounds srv url lp (Suc n) w)) = sent w @ replicate (Suc k) (GET url None)"
      using k(2) again by simp
    then show ?thesis
      using k(1) by (intro exI [of _ "Suc k"]) simp
  qed
qed

lemma nc_rounds_0: "nc_rounds srv url lp 0 w = (False, w)"
  by simp

lemma download_nc_file_raises:
  "fst (download_nc_file srv url lp retries w) = Inl e
     \<longleftrightarrow> fst (makedirs (dirname lp) (files w)) = Some e"
proof (cases "makedirs (dirname lp) (files w)")
  case (Pair err store1)
  show ?thesis
  proof (cases err)
    case None
    with Pair show ?thesis
      by (simp add: download_nc_file_def split: prod.splits)
  next
    case (Some e')
    with Pair show ?thesis
      by (simp add: download_nc_file_def)
  qed
qed

lemma download_nc_file_sent:
  "\<exists>k. k \<le> retries \<and>
       sent (snd (download_nc_file srv url lp retries w)) = sent w @ replicate k (GET url None)"
proof (cases "makedirs (dirname lp) (files w)")
  case (Pair err store1)
  show ?thesis
  proof (cases err)
    case (Some e')
    with Pair have "sent (snd (download_nc_file srv url lp retries w)) = sent w @ replicate 0 (GET url None)"
      by (simp add: download_nc_file_def)
    then show ?thesis
      by (intro exI [of _ 0]) simp
  next
    case None
    let ?w1 = "w\<lparr>files := store1\<rparr>"
    obtain k where k: "k \<le> retries"
        "sent (snd (nc_rounds srv url lp retries ?w1)) = sent ?w1 @ replicate k (GET url None)"
      using nc_rounds_sent [of retries srv url lp ?w1] by blast
    have "snd (download_nc_file srv url lp retries w) = snd (nc_rounds srv url lp retries ?w1)"
      using Pair None by (simp add: download_nc_file_def split: prod.splits)
    then have "sent (snd (download_nc_file srv url lp retries w)) = sent w @ replicate k (GET url None)"
      using k(2) by simp
    then show ?thesis
      using k(1) by (intro exI [of _ k]) simp
  qed
qed

text \<open>With the default budget the function only makes the directories.\<close>

lemma download_nc_file_default:
  "download_nc_file srv url lp RETRIES w =
     ((case fst (makedirs (dirname lp) (files w)) of None \<Rightarrow> Inr False | Some e \<Rightarrow> Inl e),
      w\<lparr>files := snd (makedirs (dirname lp) (files w))\<rparr>)"
proof (cases "makedirs (dirname lp) (files w)")
  case (Pair err store1)
  then show ?thesis
    by (cases err) (simp_all add: download_nc_file_def RETRIES_def)
qed

lemma gather_length:
  "fst (gather retries srv tasks w) = Inr results \<Longrightarrow> length results = length tasks"
proof (induction tasks arbitrary: w results)
  case Nil
  then show ?case by simp
next
  case (Cons task tasks)
  obtain url path where task: "task = (url, path)"
    by (cases task)
  obtain r w1 where d: "download_nc_file srv url path retries w = (r, w1)"
    by (cases "download_nc_file srv url path retries w")
  obtain rs w2 where g: "gather retries srv tasks w1 = (rs, w2)"
    by (cases "gather retries srv tasks w1")
  from Cons.prems task d g obtain success oks where
    parts: "r = Inr success" "rs = Inr oks" "results = success # oks"
    by (cases r; cases rs) auto
  have "length oks = length tasks"
    using Cons.IH [of w1 oks] g parts(2) by simp
  then show ?case
    using parts(3) by simp
qed

lemma gather_default:
  "sent (snd (gather RETRIES srv tasks w)) = sent w \<and>
   slept (snd (gather RETRIES srv tasks w)) = slept w \<and>
   grows (files w) (files (snd (gather RETRIES srv tasks w))) \<and>
   (\<forall>results. fst (gather RETRIES srv tasks w) = Inr results
       \<longrightarrow> results = replicate (length tasks) False)"
proof (induction tasks arbitrary: w)
  case Nil
  show ?case by (simp add: grows_refl)
next
  case (Cons task tasks)
  obtain url path where task: "task = (url, path)"
    by (cases task)
  let ?store1 = "snd (makedirs (dirname path) (files w))"
  let ?r = "case fst (makedirs (dirname path) (files w)) of None \<Rightarrow> Inr False | Some e \<Rightarrow> Inl e"
  let ?w1 = "w\<lparr>files := ?store1\<rparr>"
  have d: "download_nc_file srv url path RETRIES w = (?r, ?w1)"
    by (rule download_nc_file_default)
  obtain rs w2 where g: "gather RETRIES srv tasks ?w1 = (rs, w2)"
    by (cases "gather RETRIES srv tasks ?w1")
  have ih: "sent w2 = sent ?w1" "slept w2 = slept ?w1" "grows (files ?w1) (files w2)"
      "\<And>results. rs = Inr results \<Longrightarrow> results = replicate (length tasks) False"
    using Cons.IH [of ?w1] g by simp_all
  have whole: "gather RETRIES srv (task # tasks) w =
      ((case ?r of Inl e \<Rightarrow> Inl e
        | Inr success \<Rightarrow> (case rs of Inl e \<Rightarrow> Inl e | Inr results \<Rightarrow> Inr (success # results))), w2)"
    using task d g by simp
  have g1: "grows (files w) (files ?w1)"
    using makedirs_grows [of "files w" "dirname path"] by simp
  have g2: "grows (files w) (files w2)"
    using g1 ih(3) by (rule grows_trans)
  have res: "results = replicate (length (task # tasks)) False"
    if "fst (gather RETRIES srv (task # tasks) w) = Inr results" for results
  proof -
    from that whole obtain oks where "rs = Inr oks" "results = False # oks"
      by (cases "fst (makedirs (dirname path) (files w))"; cases rs) auto
    then show ?thesis
      using ih(4) by simp
  qed
  show ?case
    using whole ih(1,2) g2 res by simp
qed

lemma plan_tasks:
  "fst (plan store region fps) =
     map (\<lambda>fp. (BASE_URL @ fp, local_path_of region fp))
       (filter (\<lambda>fp. \<not> is_file_valid store (local_path_of region fp)) fps)"
  by (induction fps) (auto simp: Let_def split: prod.splits)

lemma plan_paths: "snd (plan store region fps) = map (local_path_of region) fps"
  by (induction fps) (auto simp: Let_def split: prod.splits)

lemma tally_total: "fst (tally rs) + int (length (snd (tally rs))) = int (length rs)"
  by (induction rs) (auto simp: Let_def split: prod.splits)

lemma tally_all_failed:
  "tally (zip (replicate (length tasks) False) tasks) = (0, map fst tasks)"
  by (induction tasks) (auto simp: Let_def split: prod.splits)

lemma length_query_index: "length (query_index rows) = card (clean_file_path ` set rows)"
  by (simp add: query_index_def length_remdups_card_conv)

lemma query_index_Nil: "query_index rows = [] \<longleftrightarrow> rows = []"
  by (simp add: query_index_def)

lemma fetch_data_with_empty: "fetch_data_with retries srv region [] w = (Inr (None, []), w)"
  by (simp add: fetch_data_with_def query_index_def)

text \<open>
  What a run over a query result that is not empty does, whatever the budget, the
  remote side and the store: it raises the error of \<open>gather\<close>, or it returns the
  local path of every expected file and a summary.
\<close>

lemma fetch_data_with_run:
  assumes "rows \<noteq> []"
  shows "(\<exists>e. fst (fetch_data_with retries srv region rows w) = Inl e \<and>
              fst (gather retries srv (fst (plan (files w) region (query_index rows))) w) = Inl e)
       \<or> (\<exists>s. fst (fetch_data_with retries srv region rows w)
                 = Inr (Some s, map (local_path_of region) (query_index rows)) \<and>
              total_files s = int (length (query_index rows)) \<and>
              already_existing s
                 = total_files s - int (length (fst (plan (files w) region (query_index rows)))) \<and>
              downloaded_count s + failed_count s
                 = int (length (fst (plan (files w) region (query_index rows)))))"
proof -
  let ?fps = "query_index rows"
  obtain tasks paths where p: "plan (files w) region ?fps = (tasks, paths)"
    by (cases "plan (files w) region ?fps")
  have paths: "paths = map (local_path_of region) ?fps"
    using p plan_paths [of "files w" region ?fps] by simp
  have ne: "?fps \<noteq> []"
    using assms by (simp add: query_index_Nil)
  show ?thesis
  proof (cases "tasks = []")
    case True
    then show ?thesis
      using p paths ne by (simp add: fetch_data_with_def Let_def)
  next
    case False
    obtain r w1 where g: "gather retries srv tasks w = (r, w1)"
      by (cases "gather retries srv tasks w")
    show ?thesis
    proof (cases r)
      case (Inl e)
      then show ?thesis
        using p g False ne by (simp add: fetch_data_with_def Let_def)
    next
      case (Inr results)
      obtain got failed where t: "tally (zip results tasks) = (got, failed)"
        by (cases "tally (zip results tasks)")
      have "length results = length tasks"
        using gather_length [of retries srv tasks w results] g Inr by simp
      then have "got + int (length failed) = int (length tasks)"
        using tally_total [of "zip results tasks"] t by simp
      then show ?thesis
        using p g Inr t False ne paths by (simp add: fetch_data_with_def Let_def)
    qed
  qed
qed

section \<open>Evaluated inputs\<close>

lemma query_two:
  "query_index [''data/indian/2020/a.nc'', ''indian/2020/a.nc'', ''indian/2020/b.nc'']
     = [''indian/2020/a.nc'', ''indian/2020/b.nc'']"
  by code_simp

lemma run_two:
  "fst (fetch_data (\<lambda>n req. Raised) ''indian''
          [''data/indian/2020/a.nc'', ''indian/2020/a.nc'', ''indian/2020/b.nc'']
          \<lparr>files = [''./argo_float_data'' \<mapsto> Dir, ''./argo_float_data/indian'' \<mapsto> Dir,
                     ''./argo_float_data/indian/2020'' \<mapsto> Dir,
                     ''./argo_float_data/indian/2020/a.nc'' \<mapsto> File ''x''],
            sent = [], slept = []\<rparr>)
   = Inr (Some \<lparr>total_files = 2, already_existing = 1, downloaded_count = 0, failed_count = 1\<rparr>,
          [''./argo_float_data/indian/2020/a.nc'', ''./argo_float_data/indian/2020/b.nc''])"
  by code_simp

section \<open>The claims\<close>

text \<open>
  C1. A run over a query result that is not empty either raises (the error of
  \<open>os.makedirs\<close> that \<open>gather\<close> passes on, before any summary) or prints a summary,
  and the counters of every summary satisfy
  \<open>already_existing + downloaded_count + failed_count = total_files\<close>, where
  \<open>total_files\<close> is the number of distinct cleaned paths. This holds for any local
  store (all present, all missing, ...) and any behaviour of the remote side. (A run
  over an empty query result returns before any summary.)
\<close>

theorem counters_consistent:
  assumes "rows \<noteq> []"
  shows "(\<exists>e w'. fetch_data srv region rows w = (Inl e, w') \<and>
             fst (gather RETRIES srv (fst (plan (files w) region (query_index rows))) w) = Inl e)
       \<or> (\<exists>s paths w'. fetch_data srv region rows w = (Inr (Some s, paths), w') \<and>
             already_existing s + downloaded_count s + failed_count s = total_files s \<and>
             total_files s = int (card (clean_file_path ` set rows)))"
proof -
  obtain r w' where run: "fetch_data srv region rows w = (r, w')"
    by (cases "fetch_data srv region rows w")
  then have r: "fst (fetch_data_with RETRIES srv region rows w) = r"
    by (simp add: fetch_data_def)
  from fetch_data_with_run [OF assms, of RETRIES srv region w] show ?thesis
  proof (elim disjE exE conjE)
    fix e
    assume "fst (fetch_data_with RETRIES srv region rows w) = Inl e"
      and "fst (gather RETRIES srv (fst (plan (files w) region (query_index rows))) w) = Inl e"
    then show ?thesis
      using run r by auto
  next
    fix s
    assume "fst (fetch_data_with RETRIES srv region rows w)
              = Inr (Some s, map (local_path_of region) (query_index rows))"
      and "total_files s = int (length (query_index rows))"
      and "already_existing s
              = total_files s - int (length (fst (plan (files w) region (query_index rows))))"
      and "downloaded_count s + failed_count s
              = int (length (fst (plan (files w) region (query_index rows))))"
    then have "fetch_data srv region rows w
                 = (Inr (Some s, map (local_path_of region) (query_index rows)), w') \<and>
               already_existing s + downloaded_count s + failed_count s = total_files s \<and>
               total_files s = int (card (clean_file_path ` set rows))"
      using run r by (simp add: length_query_index)
    then show ?thesis
      by blast
  qed
qed

theorem counters_consistent_witness:
  "[''data/indian/2020/a.nc'', ''indian/2020/a.nc'', ''indian/2020/b.nc''] \<noteq> [] \<and>
   (\<exists>s paths w'.
      fetch_data (\<lambda>n req. Raised) ''indian''
        [''data/indian/2020/a.nc'', ''indian/2020/a.nc'', ''indian/2020/b.nc'']
        \<lparr>files = [''./argo_float_data'' \<mapsto> Dir, ''./argo_float_data/indian'' \<mapsto> Dir,
                   ''./argo_float_data/indian/2020'' \<mapsto> Dir,
                   ''./argo_float_data/indian/2020/a.nc'' \<mapsto> File ''x''],
          sent = [], slept = []\<rparr>
        = (Inr (Some s, paths), w') \<and>
      already_existing s + downloaded_count s + failed_count s = total_files s \<and>
      total_files s = int (card (clean_file_path `
        set [''data/indian/2020/a.nc'', ''indian/2020/a.nc'', ''indian/2020/b.nc''])))"
  using counters_consistent
      [of "[''data/indian/2020/a.nc'', ''indian/2020/a.nc'', ''indian/2020/b.nc'']"
          "\<lambda>n req. Raised" "''indian''"
          "\<lparr>files = [''./argo_float_data'' \<mapsto> Dir, ''./argo_float_data/indian'' \<mapsto> Dir,
                     ''./argo_float_data/indian/2020'' \<mapsto> Dir,
                     ''./argo_float_data/indian/2020/a.nc'' \<mapsto> File ''x''],
            sent = [], slept = []\<rparr>"]
    run_two
  by auto

section \<open>Facts about the path cleaning\<close>

text \<open>
  No occurrence of \<open>.nnc\<close> can overlap another one, so a path that ends with \<open>.nnc\<close>
  has that ending replaced whatever comes before it.
\<close>

lemma nnc_prefix_append:
  "prefix ''.nnc'' (r @ ''.nnc'') \<longleftrightarrow> r = [] \<or> prefix ''.nnc'' r"
proof (cases r)
  case Nil
  then show ?thesis by simp
next
  case r1: (Cons a r1)
  show ?thesis
  proof (cases r1)
    case Nil
    with r1 show ?thesis by simp
  next
    case r2: (Cons b r2)
    show ?thesis
    proof (cases r2)
      case Nil
      with r1 r2 show ?thesis by simp
    next
      case r3: (Cons c r3)
      show ?thesis
      proof (cases r3)
        case Nil
        with r1 r2 r3 show ?thesis by simp
      next
        case (Cons d r4)
        with r1 r2 r3 show ?thesis by simp
      qed
    qed
  qed
qed

lemma replace_nnc_Nil: "py_replace ''.nnc'' ''.nc'' [] = []"
  by (simp add: py_replace.simps)

lemma replace_nnc_hit:
  "py_replace ''.nnc'' ''.nc'' (''.nnc'' @ s) = ''.nc'' @ py_replace ''.nnc'' ''.nc'' s"
  by (subst py_replace.simps) simp

lemma replace_nnc_miss:
  "\<not> prefix ''.nnc'' (c # s) \<Longrightarrow>
   py_replace ''.nnc'' ''.nc'' (c # s) = c # py_replace ''.nnc'' ''.nc'' s"
  by (subst py_replace.simps) auto

lemma replace_nnc_ending:
  "py_replace ''.nnc'' ''.nc'' (r @ ''.nnc'') = py_replace ''.nnc'' ''.nc'' r @ ''.nc''"
proof (induction r rule: length_induct)
  case (1 r)
  show ?case
  proof (cases r)
    case Nil
    then show ?thesis
      using replace_nnc_hit [of "[]"] by (simp add: replace_nnc_Nil)
  next
    case (Cons c s)
    show ?thesis
    proof (cases "prefix ''.nnc'' r")
      case True
      then obtain t where t: "r = ''.nnc'' @ t"
        by (auto simp: prefix_def)
      then have "length t < length r" by simp
      then have "py_replace ''.nnc'' ''.nc'' (t @ ''.nnc'') = py_replace ''.nnc'' ''.nc'' t @ ''.nc''"
        using "1.IH" by blast
      then show ?thesis
        using replace_nnc_hit [of t] replace_nnc_hit [of "t @ ''.nnc''"] t by simp
    next
      case False
      then have miss: "\<not> prefix ''.nnc'' (c # s @ ''.nnc'')"
        using nnc_prefix_append [of r] Cons by simp
      have "length s < length r" using Cons by simp
      then have "py_replace ''.nnc'' ''.nc'' (s @ ''.nnc'') = py_replace ''.nnc'' ''.nc'' s @ ''.nc''"
        using "1.IH" by blast
      then show ?thesis
        using replace_nnc_miss [OF miss] replace_nnc_miss [of c s] False Cons by simp
    qed
  qed
qed

lemma not_suffix_nnc: "\<not> suffix ''.nc'' (r @ ''.nnc'')"
  by (simp add: suffix_to_prefix)

lemma clean_file_path_stripped:
  "clean_file_path (''data/'' @ r) = (if suffix ''.nc'' r then r else py_replace ''.nnc'' ''.nc'' r)"
  by (simp add: clean_file_path_def)

lemma clean_file_path_plain:
  "\<not> prefix ''data/'' p \<Longrightarrow>
   clean_file_path p = (if suffix ''.nc'' p then p else py_replace ''.nnc'' ''.nc'' p)"
  by (auto simp: clean_file_path_def prefix_def)

lemma replace_plain: "py_replace ''.nnc'' ''.nc'' ''indian/a'' = ''indian/a''"
  by code_simp
lemma suffix_data_a: "suffix ''.nc'' ''data/indian/a.nc''"
  by code_simp
lemma no_prefix_a: "\<not> prefix ''data/'' ''indian/a.nnc''"
  by code_simp
lemma suffix_a: "suffix ''.nc'' ''indian/a.nc''"
  by code_simp

text \<open>
  C3, as the code has it. \<open>clean_file_path\<close> is a total function on strings. Its first
  rule removes one leading \<open>data/\<close> from every path that starts with \<open>data/\<close>, whether
  the prefix is doubled or not; its second rule leaves a path that ends with \<open>.nc\<close>
  as it is and otherwise replaces every occurrence of \<open>.nnc\<close> by \<open>.nc\<close>, so that an
  ending \<open>.nnc\<close> becomes \<open>.nc\<close>.
\<close>

theorem clean_file_path_rules:
  "clean_file_path (''data/'' @ r) = (if suffix ''.nc'' r then r else py_replace ''.nnc'' ''.nc'' r) \<and>
   (\<not> prefix ''data/'' p \<longrightarrow>
      clean_file_path p = (if suffix ''.nc'' p then p else py_replace ''.nnc'' ''.nc'' p)) \<and>
   (\<not> prefix ''data/'' (t @ ''.nnc'') \<longrightarrow>
      clean_file_path (t @ ''.nnc'') = py_replace ''.nnc'' ''.nc'' t @ ''.nc'')"
  using clean_file_path_stripped clean_file_path_plain [of p]
    clean_file_path_plain [of "t @ ''.nnc''"] not_suffix_nnc [of t] replace_nnc_ending [of t]
  by simp

theorem clean_file_path_rules_witness:
  "clean_file_path ''data/data/indian/a.nc'' = ''data/indian/a.nc'' \<and>
   clean_file_path ''indian/a.nc'' = ''indian/a.nc'' \<and>
   clean_file_path ''indian/a.nnc'' = ''indian/a.nc''"
  using clean_file_path_rules [of "''data/indian/a.nc''" "''indian/a.nc''" "''indian/a''"]
  by (simp add: replace_plain suffix_data_a no_prefix_a suffix_a)

text \<open>
  C3 as stated fails: a path with a single leading \<open>data/\<close> loses it, and a \<open>.nnc\<close>
  that is not at the end of the path is rewritten too.
\<close>

theorem clean_file_path_counterexample:
  "prefix ''data/'' ''data/indian/a.nc'' \<and> \<not> prefix ''data/data/'' ''data/indian/a.nc'' \<and>
   clean_file_path ''data/indian/a.nc'' = ''indian/a.nc'' \<and>
   \<not> suffix ''.nnc'' ''a.nnc/b.txt'' \<and> clean_file_path ''a.nnc/b.txt'' = ''a.nc/b.txt''"
  by code_simp


text \<open>
  C6, as the code has it. The cleaned paths of the catalog are deduplicated before the
  planning loop, so a cleaned path never yields two tasks: the URLs of the tasks are
  pairwise distinct.
\<close>

theorem catalog_tasks_distinct:
  "distinct (query_index rows) \<and>
   distinct (map fst (fst (plan store region (query_index rows))))"
proof -
  have d: "distinct (query_index rows)"
    by (simp add: query_index_def)
  have "map fst (fst (plan store region (query_index rows)))
         = map ((@) BASE_URL)
             (filter (\<lambda>fp. \<not> is_file_valid store (local_path_of region fp)) (query_index rows))"
    by (simp add: plan_tasks comp_def)
  moreover have "distinct (map ((@) BASE_URL)
             (filter (\<lambda>fp. \<not> is_file_valid store (local_path_of region fp)) (query_index rows)))"
    using d by (simp add: distinct_map inj_on_def)
  ultimately show ?thesis
    using d by simp
qed

text \<open>
  C6 as stated fails: the scanner turns every anchor of a listing into a task, a
  repeated one twice; and two distinct cleaned paths of the catalog can share a local
  path.
\<close>

theorem duplicate_tasks_counterexample:
  "scan_download_tasks (\<lambda>url. Some ([(''x.nc'', ''x.nc''), (''x.nc'', ''x.nc'')], [])) ''indian'' [2020]
     = [(''https://www.ncei.noaa.gov/data/oceans/argo/gadr/data/indian/2020/x.nc'',
         ''argo_float_data/indian/2020/x.nc''),
        (''https://www.ncei.noaa.gov/data/oceans/argo/gadr/data/indian/2020/x.nc'',
         ''argo_float_data/indian/2020/x.nc'')] \<and>
   map snd (fst (plan Map.empty ''indian'' (query_index [''a/indian/x.nc'', ''b/indian/x.nc''])))
     = [''./argo_float_data/indian/x.nc'', ''./argo_float_data/indian/x.nc'']"
  by code_simp

section \<open>Facts about a run with the default budget\<close>

lemma fetch_data_with_world:
  "snd (fetch_data_with retries srv region rows w) =
     (if fst (plan (files w) region (query_index rows)) = [] then w
      else snd (gather retries srv (fst (plan (files w) region (query_index rows))) w))"
proof -
  obtain tasks paths where p: "plan (files w) region (query_index rows) = (tasks, paths)"
    by (cases "plan (files w) region (query_index rows)")
  obtain r w1 where g: "gather retries srv tasks w = (r, w1)"
    by (cases "gather retries srv tasks w")
  show ?thesis
  proof (cases "query_index rows = []")
    case True
    then show ?thesis
      by (simp add: fetch_data_with_def)
  next
    case False
    then show ?thesis
      using p g by (cases r) (simp_all add: fetch_data_with_def Let_def split: prod.splits)
  qed
qed

text \<open>
  With the default budget a run that prints a summary has downloaded nothing: every
  planned task is in the failed tally, no request was sent, there was no wait, and
  the store has only gained directories.
\<close>

lemma fetch_data_default:
  assumes "fetch_data srv region rows w = (Inr (Some s, paths), w')"
  shows "downloaded_count s = 0 \<and>
         failed_count s = int (length (fst (plan (files w) region (query_index rows)))) \<and>
         already_existing s = total_files s - int (length (fst (plan (files w) region (query_index rows)))) \<and>
         paths = map (local_path_of region) (query_index rows) \<and>
         sent w' = sent w \<and> slept w' = slept w \<and> grows (files w) (files w') \<and>
         (fst (plan (files w) region (query_index rows)) = [] \<longrightarrow> w' = w)"
proof -
  let ?tasks = "fst (plan (files w) region (query_index rows))"
  have ne: "rows \<noteq> []"
    using assms by (auto simp: fetch_data_def fetch_data_with_empty)
  have world: "w' = (if ?tasks = [] then w else snd (gather RETRIES srv ?tasks w))"
    using assms fetch_data_with_world [of RETRIES srv region rows w] by (simp add: fetch_data_def)
  have effects: "sent w' = sent w \<and> slept w' = slept w \<and> grows (files w) (files w')"
    using world gather_default [of srv ?tasks w] by (simp add: grows_refl)
  obtain tasks paths0 where p: "plan (files w) region (query_index rows) = (tasks, paths0)"
    by (cases "plan (files w) region (query_index rows)")
  have paths0: "paths0 = map (local_path_of region) (query_index rows)"
    using p plan_paths [of "files w" region "query_index rows"] by simp
  have q: "query_index rows \<noteq> []"
    using ne by (simp add: query_index_Nil)
  have counts: "downloaded_count s = 0 \<and> failed_count s = int (length tasks) \<and>
      already_existing s = total_files s - int (length tasks) \<and>
      paths = map (local_path_of region) (query_index rows)"
  proof (cases "tasks = []")
    case True
    then show ?thesis
      using assms p q paths0 by (auto simp: fetch_data_def fetch_data_with_def Let_def)
  next
    case False
    obtain r w1 where g: "gather RETRIES srv tasks w = (r, w1)"
      by (cases "gather RETRIES srv tasks w")
    show ?thesis
    proof (cases r)
      case (Inl e)
      then show ?thesis
        using assms p q g False by (simp add: fetch_data_def fetch_data_with_def Let_def)
    next
      case (Inr results)
      then have "results = replicate (length tasks) False"
        using gather_default [of srv tasks w] g by simp
      then show ?thesis
        using assms p q g False Inr paths0
        by (auto simp: fetch_data_def fetch_data_with_def Let_def tally_all_failed)
    qed
  qed
  show ?thesis
    using counts effects world p by simp
qed

lemma download_nc_file_bare:
  "download_nc_file srv url ''p'' retries w = (Inl FileNotFoundError, w)"
  by (simp add: download_nc_file_def dirname_bare makedirs_empty)

lemma makedirs_2020:
  "fst (makedirs (dirname ''./argo_float_data/indian/2020/b.nc'') Map.empty) = None"
  by code_simp

text \<open>
  C10, as the code has it. With the default budget \<open>RETRIES = 0\<close>,
  \<open>download_nc_file\<close> sends no request, waits for nothing and leaves every regular
  file as it was, whatever the remote side would answer: it makes the missing parent
  directories and returns \<open>False\<close>, or it raises the error of \<open>os.makedirs\<close>; it
  never returns \<open>True\<close>. So a run that prints its summary has downloaded nothing and
  counts every planned task as failed.
\<close>

theorem default_budget_downloads_nothing:
  "(\<exists>r w'. download_nc_file srv url local_path RETRIES w = (r, w') \<and>
       r \<noteq> Inr True \<and>
       (r = Inr False \<longleftrightarrow> fst (makedirs (dirname local_path) (files w)) = None) \<and>
       sent w' = sent w \<and> slept w' = slept w \<and>
       (\<forall>p bytes. files w' p = Some (File bytes) \<longleftrightarrow> files w p = Some (File bytes))) \<and>
   (fetch_data srv region rows w = (Inr (Some s, paths), w'') \<longrightarrow>
       downloaded_count s = 0 \<and>
       failed_count s = int (length (fst (plan (files w) region (query_index rows)))) \<and>
       sent w'' = sent w \<and>
       (\<forall>p bytes. files w'' p = Some (File bytes) \<longleftrightarrow> files w p = Some (File bytes)))"
proof (intro conjI impI)
  let ?m = "makedirs (dirname local_path) (files w)"
  let ?r = "case fst ?m of None \<Rightarrow> Inr False | Some e \<Rightarrow> Inl e"
  let ?w' = "w\<lparr>files := snd ?m\<rparr>"
  have d: "download_nc_file srv url local_path RETRIES w = (?r, ?w')"
    by (rule download_nc_file_default)
  have r1: "?r \<noteq> Inr True"
    by (cases "fst ?m") simp_all
  have r2: "?r = Inr False \<longleftrightarrow> fst ?m = None"
    by (cases "fst ?m") simp_all
  have same: "\<forall>p bytes. files ?w' p = Some (File bytes) \<longleftrightarrow> files w p = Some (File bytes)"
    using grows_file [OF makedirs_grows [of "files w" "dirname local_path"]] by simp
  have "download_nc_file srv url local_path RETRIES w = (?r, ?w') \<and>
       ?r \<noteq> Inr True \<and>
       (?r = Inr False \<longleftrightarrow> fst (makedirs (dirname local_path) (files w)) = None) \<and>
       sent ?w' = sent w \<and> slept ?w' = slept w \<and>
       (\<forall>p bytes. files ?w' p = Some (File bytes) \<longleftrightarrow> files w p = Some (File bytes))"
    using d r1 r2 same by simp
  then show "\<exists>r w'. download_nc_file srv url local_path RETRIES w = (r, w') \<and>
       r \<noteq> Inr True \<and>
       (r = Inr False \<longleftrightarrow> fst (makedirs (dirname local_path) (files w)) = None) \<and>
       sent w' = sent w \<and> slept w' = slept w \<and>
       (\<forall>p bytes. files w' p = Some (File bytes) \<longleftrightarrow> files w p = Some (File bytes))"
    by (intro exI [of _ ?r] exI [of _ ?w'])
next
  assume run: "fetch_data srv region rows w = (Inr (Some s, paths), w'')"
  show "downloaded_count s = 0"
    using fetch_data_default [OF run] by simp
  show "failed_count s = int (length (fst (plan (files w) region (query_index rows))))"
    using fetch_data_default [OF run] by simp
  show "sent w'' = sent w"
    using fetch_data_default [OF run] by simp
  have "grows (files w) (files w'')"
    using fetch_data_default [OF run] by simp
  then show "\<forall>p bytes. files w'' p = Some (File bytes) \<longleftrightarrow> files w p = Some (File bytes)"
    using grows_file by simp
qed

theorem default_budget_downloads_nothing_witness:
  "(\<exists>w'. download_nc_file (\<lambda>n req. Reply 200 ''abc'' False)
            ''https://www.ncei.noaa.gov/data/oceans/argo/gadr/data/indian/2020/b.nc''
            ''./argo_float_data/indian/2020/b.nc'' RETRIES
            \<lparr>files = Map.empty, sent = [], slept = []\<rparr> = (Inr False, w') \<and>
          sent w' = [] \<and> slept w' = []) \<and>
   (\<exists>s paths w''.
      fetch_data (\<lambda>n req. Raised) ''indian''
        [''data/indian/2020/a.nc'', ''indian/2020/a.nc'', ''indian/2020/b.nc'']
        \<lparr>files = [''./argo_float_data'' \<mapsto> Dir, ''./argo_float_data/indian'' \<mapsto> Dir,
                   ''./argo_float_data/indian/2020'' \<mapsto> Dir,
                   ''./argo_float_data/indian/2020/a.nc'' \<mapsto> File ''x''],
          sent = [], slept = []\<rparr>
        = (Inr (Some s, paths), w'') \<and>
      downloaded_count s = 0 \<and> failed_count s = 1 \<and> sent w'' = [])"
proof -
  let ?empty = "\<lparr>files = Map.empty, sent = [], slept = []\<rparr> :: world"
  let ?lp = "''./argo_float_data/indian/2020/b.nc''"
  let ?url = "''https://www.ncei.noaa.gov/data/oceans/argo/gadr/data/indian/2020/b.nc''"
  let ?srv = "\<lambda>(n::nat) (req::request). Reply 200 ''abc'' False"
  let ?rows = "[''data/indian/2020/a.nc'', ''indian/2020/a.nc'', ''indian/2020/b.nc'']"
  let ?full = "\<lparr>files = [''./argo_float_data'' \<mapsto> Dir, ''./argo_float_data/indian'' \<mapsto> Dir,
                   ''./argo_float_data/indian/2020'' \<mapsto> Dir,
                   ''./argo_float_data/indian/2020/a.nc'' \<mapsto> File ''x''],
          sent = [], slept = []\<rparr> :: world"
  let ?s = "\<lparr>total_files = 2, already_existing = 1, downloaded_count = 0, failed_count = 1\<rparr>"
  let ?paths = "[''./argo_float_data/indian/2020/a.nc'', ''./argo_float_data/indian/2020/b.nc'']"
  let ?run = "fetch_data (\<lambda>n req. Raised) ''indian'' ?rows ?full"
  have made: "fst (makedirs (dirname ?lp) (files ?empty)) = None"
    using makedirs_2020 by simp
  have first: "\<exists>w'. download_nc_file ?srv ?url ?lp RETRIES ?empty = (Inr False, w') \<and>
          sent w' = [] \<and> slept w' = []"
    using default_budget_downloads_nothing [of ?srv ?url ?lp ?empty, THEN conjunct1] made by auto
  have run: "?run = (Inr (Some ?s, ?paths), snd ?run)"
    using run_two by (simp add: prod_eq_iff)
  have "downloaded_count ?s = 0 \<and> sent (snd ?run) = sent ?full"
    using default_budget_downloads_nothing
      [where srv = "\<lambda>n req. Raised" and region = "''indian''" and rows = ?rows and w = ?full
         and s = ?s and paths = ?paths and w'' = "snd ?run"] run
    by blast
  then have second: "\<exists>s paths w''. ?run = (Inr (Some s, paths), w'') \<and>
      downloaded_count s = 0 \<and> failed_count s = 1 \<and> sent w'' = []"
    using run by (intro exI [of _ ?s] exI [of _ ?paths] exI [of _ "snd ?run"]) simp
  show ?thesis
    using first second by blast
qed

text \<open>
  C10 as stated fails: for a local path without a directory part \<open>os.makedirs\<close> is
  called on the empty path and raises, so the function does not return \<open>False\<close>.
\<close>

theorem default_budget_counterexample:
  "download_nc_file (\<lambda>n req. Reply 200 ''abc'' False) ''u'' ''p'' RETRIES
      \<lparr>files = Map.empty, sent = [], slept = []\<rparr>
     = (Inl FileNotFoundError, \<lparr>files = Map.empty, sent = [], slept = []\<rparr>)"
  by (rule download_nc_file_bare)

section \<open>Facts about a run that has nothing to download\<close>













section \<open>A run with any budget\<close>

lemma fetch_data_with_summary:
  assumes "fetch_data_with retries srv region rows w = (Inr (Some s, paths), w')"
  shows "paths = map (local_path_of region) (query_index rows) \<and>
         total_files s = int (length (query_index rows)) \<and>
         already_existing s
           = total_files s - int (length (fst (plan (files w) region (query_index rows)))) \<and>
         (fst (plan (files w) region (query_index rows)) = [] \<longrightarrow>
            w' = w \<and> downloaded_count s = 0 \<and> failed_count s = 0) \<and>
         (fst (plan (files w) region (query_index rows)) \<noteq> [] \<longrightarrow>
            (\<exists>results.
               gather retries srv (fst (plan (files w) region (query_index rows))) w = (Inr results, w') \<and>
               downloaded_count s
                 = fst (tally (zip results (fst (plan (files w) region (query_index rows))))) \<and>
               failed_count s
                 = int (length (snd (tally (zip results (fst (plan (files w) region (query_index rows)))))))))"
proof -
  obtain tasks paths0 where p: "plan (files w) region (query_index rows) = (tasks, paths0)"
    by (cases "plan (files w) region (query_index rows)")
  have paths0: "paths0 = map (local_path_of region) (query_index rows)"
    using p plan_paths [of "files w" region "query_index rows"] by simp
  have q: "query_index rows \<noteq> []"
    using assms by (auto simp: fetch_data_with_def Let_def)
  show ?thesis
  proof (cases "tasks = []")
    case True
    then show ?thesis
      using assms p q paths0 by (auto simp: fetch_data_with_def Let_def)
  next
    case False
    obtain r w1 where g: "gather retries srv tasks w = (r, w1)"
      by (cases "gather retries srv tasks w")
    show ?thesis
    proof (cases r)
      case (Inl e)
      then show ?thesis
        using assms p q g False by (simp add: fetch_data_with_def Let_def)
    next
      case (Inr results)
      obtain d f where t: "tally (zip results tasks) = (d, f)"
        by (cases "tally (zip results tasks)")
      show ?thesis
        using assms p q g False Inr paths0 t
        by (auto simp: fetch_data_with_def Let_def)
    qed
  qed
qed

section \<open>A 404 reply\<close>

lemma download_nc_file_404:
  assumes "makedirs (dirname lp) (files w) = (None, store1)"
    and "srv (length (sent w)) (GET url None) = Reply 404 body aborts"
  shows "download_nc_file srv url lp (Suc k) w
           = (Inr False, w\<lparr>files := store1, sent := sent w @ [GET url None]\<rparr>)"
  using assms by (simp add: download_nc_file_def send_def)

lemma gather_404:
  assumes nf: "\<forall>n req. \<exists>body aborts. srv n req = Reply 404 body aborts"
  shows "slept (snd (gather (Suc k) srv tasks w)) = slept w \<and>
         grows (files w) (files (snd (gather (Suc k) srv tasks w))) \<and>
         (\<forall>results. fst (gather (Suc k) srv tasks w) = Inr results \<longrightarrow>
            results = replicate (length tasks) False \<and>
            sent (snd (gather (Suc k) srv tasks w)) = sent w @ map (\<lambda>t. GET (fst t) None) tasks)"
proof (induction tasks arbitrary: w)
  case Nil
  show ?case by (simp add: grows_refl)
next
  case (Cons task tasks)
  obtain url path where task: "task = (url, path)"
    by (cases task)
  obtain err store1 where m: "makedirs (dirname path) (files w) = (err, store1)"
    by (cases "makedirs (dirname path) (files w)")
  have g1: "grows (files w) store1"
    using makedirs_grows [of "files w" "dirname path"] m by simp
  show ?case
  proof (cases err)
    case (Some e)
    let ?w1 = "w\<lparr>files := store1\<rparr>"
    have d: "download_nc_file srv url path (Suc k) w = (Inl e, ?w1)"
      using m Some by (simp add: download_nc_file_def)
    obtain rs w2 where g: "gather (Suc k) srv tasks ?w1 = (rs, w2)"
      by (cases "gather (Suc k) srv tasks ?w1")
    have ih: "slept w2 = slept ?w1" "grows (files ?w1) (files w2)"
      using Cons.IH [of ?w1] g by simp_all
    have whole: "gather (Suc k) srv (task # tasks) w = (Inl e, w2)"
      using task d g by simp
    have "grows (files w) (files w2)"
      using g1 ih(2) grows_trans [of "files w" store1 "files w2"] by simp
    then show ?thesis
      using whole ih(1) by simp
  next
    case None
    let ?w1 = "w\<lparr>files := store1, sent := sent w @ [GET url None]\<rparr>"
    obtain body aborts where "srv (length (sent w)) (GET url None) = Reply 404 body aborts"
      using nf by blast
    then have d: "download_nc_file srv url path (Suc k) w = (Inr False, ?w1)"
      using m None download_nc_file_404 by simp
    obtain rs w2 where g: "gather (Suc k) srv tasks ?w1 = (rs, w2)"
      by (cases "gather (Suc k) srv tasks ?w1")
    have ih: "slept w2 = slept ?w1" "grows (files ?w1) (files w2)"
        "\<And>results. rs = Inr results \<Longrightarrow> results = replicate (length tasks) False \<and>
            sent w2 = sent ?w1 @ map (\<lambda>t. GET (fst t) None) tasks"
      using Cons.IH [of ?w1] g by simp_all
    have whole: "gather (Suc k) srv (task # tasks) w =
        ((case rs of Inl e \<Rightarrow> Inl e | Inr results \<Rightarrow> Inr (False # results)), w2)"
      using task d g by simp
    have g2: "grows (files w) (files w2)"
      using g1 ih(2) grows_trans [of "files w" store1 "files w2"] by simp
    have res: "results = replicate (length (task # tasks)) False \<and>
            sent w2 = sent w @ map (\<lambda>t. GET (fst t) None) (task # tasks)"
      if "fst (gather (Suc k) srv (task # tasks) w) = Inr results" for results
    proof -
      from that whole obtain oks where "rs = Inr oks" "results = False # oks"
        by (cases rs) auto
      then show ?thesis
        using ih(3) task by simp
    qed
    show ?thesis
      using whole ih(1) g2 res by simp
  qed
qed

text \<open>
  C7, as the code has it. When \<open>download_nc_file\<close> makes at least one attempt and the
  reply is 404, it returns \<open>False\<close> at once: one request, no sleep, no file written.
  The run is not stopped by it. With a budget of at least one attempt and a remote side
  that answers every request with 404, a run that prints its summary has sent exactly
  one request for each planned task, has slept for nothing, has left every regular file
  as it was, returns the local path of every expected file and counts every planned
  task as failed: the summary has no counter for files that were not found. (The
  tasks are run one after the other, in task order.)
\<close>

theorem not_found_is_terminal:
  "(makedirs (dirname local_path) (files w) = (None, store1) \<and>
    srv (length (sent w)) (GET url None) = Reply 404 body aborts \<longrightarrow>
      download_nc_file srv url local_path (Suc retries) w
        = (Inr False, w\<lparr>files := store1, sent := sent w @ [GET url None]\<rparr>)) \<and>
   ((\<forall>n req. \<exists>body aborts. srv2 n req = Reply 404 body aborts) \<and>
    fetch_data_with (Suc retries) srv2 region rows w2 = (Inr (Some s, paths), w') \<longrightarrow>
      downloaded_count s = 0 \<and>
      failed_count s = int (length (fst (plan (files w2) region (query_index rows)))) \<and>
      already_existing s + failed_count s = total_files s \<and>
      paths = map (local_path_of region) (query_index rows) \<and>
      sent w' = sent w2 @ map (\<lambda>t. GET (fst t) None) (fst (plan (files w2) region (query_index rows))) \<and>
      slept w' = slept w2 \<and>
      (\<forall>p bytes. files w' p = Some (File bytes) \<longleftrightarrow> files w2 p = Some (File bytes)))"
proof (intro conjI impI)
  assume "makedirs (dirname local_path) (files w) = (None, store1) \<and>
    srv (length (sent w)) (GET url None) = Reply 404 body aborts"
  then show "download_nc_file srv url local_path (Suc retries) w
        = (Inr False, w\<lparr>files := store1, sent := sent w @ [GET url None]\<rparr>)"
    using download_nc_file_404 by simp
next
  let ?tasks = "fst (plan (files w2) region (query_index rows))"
  assume a: "(\<forall>n req. \<exists>body aborts. srv2 n req = Reply 404 body aborts) \<and>
    fetch_data_with (Suc retries) srv2 region rows w2 = (Inr (Some s, paths), w')"
  then have nf: "\<forall>n req. \<exists>body aborts. srv2 n req = Reply 404 body aborts"
    and run: "fetch_data_with (Suc retries) srv2 region rows w2 = (Inr (Some s, paths), w')"
    by simp_all
  note sum = fetch_data_with_summary [OF run]
  note g = gather_404 [OF nf, of retries ?tasks w2]
  have all: "downloaded_count s = 0 \<and> failed_count s = int (length ?tasks) \<and>
      sent w' = sent w2 @ map (\<lambda>t. GET (fst t) None) ?tasks \<and> slept w' = slept w2 \<and>
      grows (files w2) (files w')"
  proof (cases "?tasks = []")
    case True
    then show ?thesis
      using sum by (simp add: grows_refl)
  next
    case False
    then obtain results where r: "gather (Suc retries) srv2 ?tasks w2 = (Inr results, w')"
        "downloaded_count s = fst (tally (zip results ?tasks))"
        "failed_count s = int (length (snd (tally (zip results ?tasks))))"
      using sum by blast
    have "results = replicate (length ?tasks) False"
      using g r(1) by simp
    then have "downloaded_count s = 0" "failed_count s = int (length ?tasks)"
      using r(2,3) by (simp_all add: tally_all_failed)
    then show ?thesis
      using g r(1) by simp
  qed
  show "downloaded_count s = 0" using all by simp
  show "failed_count s = int (length ?tasks)" using all by simp
  show "already_existing s + failed_count s = total_files s" using all sum by simp
  show "paths = map (local_path_of region) (query_index rows)" using sum by simp
  show "sent w' = sent w2 @ map (\<lambda>t. GET (fst t) None) ?tasks" using all by simp
  show "slept w' = slept w2" using all by simp
  have "grows (files w2) (files w')" using all by simp
  then show "\<forall>p bytes. files w' p = Some (File bytes) \<longleftrightarrow> files w2 p = Some (File bytes)"
    using grows_file by simp
qed

lemma makedirs_present:
  "fst (makedirs (dirname ''./argo_float_data/indian/2020/b.nc'')
      (files \<lparr>files = [''./argo_float_data'' \<mapsto> Dir, ''./argo_float_data/indian'' \<mapsto> Dir,
                ''./argo_float_data/indian/2020'' \<mapsto> Dir,
                ''./argo_float_data/indian/2020/a.nc'' \<mapsto> File ''x''],
       sent = [], slept = []\<rparr>)) = None"
  by code_simp

lemma plan_two:
  "fst (plan (files \<lparr>files = [''./argo_float_data'' \<mapsto> Dir, ''./argo_float_data/indian'' \<mapsto> Dir,
                ''./argo_float_data/indian/2020'' \<mapsto> Dir,
                ''./argo_float_data/indian/2020/a.nc'' \<mapsto> File ''x''],
       sent = [], slept = []\<rparr>) ''indian'' (query_index [''indian/2020/a.nc'', ''indian/2020/b.nc'']))
   = [(''https://www.ncei.noaa.gov/data/oceans/argo/gadr/data/indian/2020/b.nc'', ''./argo_float_data/indian/2020/b.nc'')]"
  by code_simp

lemma run_404:
  "fst (fetch_data_with 3 (\<lambda>n req. Reply 404 [] False) ''indian'' [''indian/2020/a.nc'', ''indian/2020/b.nc'']
      \<lparr>files = [''./argo_float_data'' \<mapsto> Dir, ''./argo_float_data/indian'' \<mapsto> Dir,
                ''./argo_float_data/indian/2020'' \<mapsto> Dir,
                ''./argo_float_data/indian/2020/a.nc'' \<mapsto> File ''x''],
       sent = [], slept = []\<rparr>)
   = Inr (Some \<lparr>total_files = 2, already_existing = 1, downloaded_count = 0, failed_count = 1\<rparr>, [''./argo_float_data/indian/2020/a.nc'', ''./argo_float_data/indian/2020/b.nc''])"
  by code_simp

theorem not_found_is_terminal_witness:
  "fst (download_nc_file (\<lambda>n req. Reply 404 [] False)
      ''https://www.ncei.noaa.gov/data/oceans/argo/gadr/data/indian/2020/b.nc''
      ''./argo_float_data/indian/2020/b.nc'' 3
      \<lparr>files = [''./argo_float_data'' \<mapsto> Dir, ''./argo_float_data/indian'' \<mapsto> Dir,
                ''./argo_float_data/indian/2020'' \<mapsto> Dir,
                ''./argo_float_data/indian/2020/a.nc'' \<mapsto> File ''x''],
       sent = [], slept = []\<rparr>) = Inr False \<and>
   sent (snd (download_nc_file (\<lambda>n req. Reply 404 [] False)
      ''https://www.ncei.noaa.gov/data/oceans/argo/gadr/data/indian/2020/b.nc''
      ''./argo_float_data/indian/2020/b.nc'' 3
      \<lparr>files = [''./argo_float_data'' \<mapsto> Dir, ''./argo_float_data/indian'' \<mapsto> Dir,
                ''./argo_float_data/indian/2020'' \<mapsto> Dir,
                ''./argo_float_data/indian/2020/a.nc'' \<mapsto> File ''x''],
       sent = [], slept = []\<rparr>)) = [GET ''https://www.ncei.noaa.gov/data/oceans/argo/gadr/data/indian/2020/b.nc'' None] \<and>
   slept (snd (download_nc_file (\<lambda>n req. Reply 404 [] False)
      ''https://www.ncei.noaa.gov/data/oceans/argo/gadr/data/indian/2020/b.nc''
      ''./argo_float_data/indian/2020/b.nc'' 3
      \<lparr>files = [''./argo_float_data'' \<mapsto> Dir, ''./argo_float_data/indian'' \<mapsto> Dir,
                ''./argo_float_data/indian/2020'' \<mapsto> Dir,
                ''./argo_float_data/indian/2020/a.nc'' \<mapsto> File ''x''],
       sent = [], slept = []\<rparr>)) = [] \<and>
   fst (fetch_data_with 3 (\<lambda>n req. Reply 404 [] False) ''indian'' [''indian/2020/a.nc'', ''indian/2020/b.nc'']
      \<lparr>files = [''./argo_float_data'' \<mapsto> Dir, ''./argo_float_data/indian'' \<mapsto> Dir,
                ''./argo_float_data/indian/2020'' \<mapsto> Dir,
                ''./argo_float_data/indian/2020/a.nc'' \<mapsto> File ''x''],
       sent = [], slept = []\<rparr>)
     = Inr (Some \<lparr>total_files = 2, already_existing = 1, downloaded_count = 0, failed_count = 1\<rparr>, [''./argo_float_data/indian/2020/a.nc'', ''./argo_float_data/indian/2020/b.nc'']) \<and>
   sent (snd (fetch_data_with 3 (\<lambda>n req. Reply 404 [] False) ''indian'' [''indian/2020/a.nc'', ''indian/2020/b.nc'']
      \<lparr>files = [''./argo_float_data'' \<mapsto> Dir, ''./argo_float_data/indian'' \<mapsto> Dir,
                ''./argo_float_data/indian/2020'' \<mapsto> Dir,
                ''./argo_float_data/indian/2020/a.nc'' \<mapsto> File ''x''],
       sent = [], slept = []\<rparr>)) = [GET ''https://www.ncei.noaa.gov/data/oceans/argo/gadr/data/indian/2020/b.nc'' None] \<and>
   slept (snd (fetch_data_with 3 (\<lambda>n req. Reply 404 [] False) ''indian'' [''indian/2020/a.nc'', ''indian/2020/b.nc'']
      \<lparr>files = [''./argo_float_data'' \<mapsto> Dir, ''./argo_float_data/indian'' \<mapsto> Dir,
                ''./argo_float_data/indian/2020'' \<mapsto> Dir,
                ''./argo_float_data/indian/2020/a.nc'' \<mapsto> File ''x''],
       sent = [], slept = []\<rparr>)) = []"
proof -
  let ?w = "\<lparr>files = [''./argo_float_data'' \<mapsto> Dir, ''./argo_float_data/indian'' \<mapsto> Dir,
                ''./argo_float_data/indian/2020'' \<mapsto> Dir,
                ''./argo_float_data/indian/2020/a.nc'' \<mapsto> File ''x''],
       sent = [], slept = []\<rparr>"
  let ?srv = "\<lambda>n req. Reply 404 [] False :: response"
  let ?lp = "''./argo_float_data/indian/2020/b.nc''"
  let ?url = "''https://www.ncei.noaa.gov/data/oceans/argo/gadr/data/indian/2020/b.nc''"
  let ?rows = "[''indian/2020/a.nc'', ''indian/2020/b.nc'']"
  let ?s = "\<lparr>total_files = 2, already_existing = 1, downloaded_count = 0, failed_count = 1\<rparr>"
  have m: "makedirs (dirname ?lp) (files ?w) = (None, snd (makedirs (dirname ?lp) (files ?w)))"
    using makedirs_present by (simp add: prod_eq_iff)
  have reply: "?srv (length (sent ?w)) (GET ?url None) = Reply 404 [] False"
    by simp
  have nf: "\<forall>n req. \<exists>body aborts. ?srv n req = Reply 404 body aborts"
    by (intro allI exI [of _ "[]"] exI [of _ False]) simp
  have run: "fetch_data_with (Suc 2) ?srv ''indian'' ?rows ?w
      = (Inr (Some ?s, [''./argo_float_data/indian/2020/a.nc'', ''./argo_float_data/indian/2020/b.nc'']), snd (fetch_data_with (Suc 2) ?srv ''indian'' ?rows ?w))"
    using run_404 by (simp add: prod_eq_iff eval_nat_numeral)
  note inst = not_found_is_terminal [where srv = ?srv and ?srv2.0 = ?srv and w = ?w and ?w2.0 = ?w
      and local_path = ?lp and url = ?url and body = "[]" and aborts = False and retries = 2
      and ?store1.0 = "snd (makedirs (dirname ?lp) (files ?w))" and region = "''indian''"
      and rows = ?rows and s = ?s and paths = "[''./argo_float_data/indian/2020/a.nc'', ''./argo_float_data/indian/2020/b.nc'']"
      and w' = "snd (fetch_data_with (Suc 2) ?srv ''indian'' ?rows ?w)"]
  have one: "download_nc_file ?srv ?url ?lp (Suc 2) ?w
      = (Inr False, ?w\<lparr>files := snd (makedirs (dirname ?lp) (files ?w)), sent := sent ?w @ [GET ?url None]\<rparr>)"
    using inst m reply by blast
  have two: "sent (snd (fetch_data_with (Suc 2) ?srv ''indian'' ?rows ?w))
        = sent ?w @ map (\<lambda>t. GET (fst t) None) (fst (plan (files ?w) ''indian'' (query_index ?rows)))"
      "slept (snd (fetch_data_with (Suc 2) ?srv ''indian'' ?rows ?w)) = slept ?w"
    using inst nf run by blast+
  have p: "map (\<lambda>t. GET (fst t) None) (fst (plan (files ?w) ''indian'' (query_index ?rows)))
      = [GET ?url None]"
    by (simp only: plan_two list.map fst_conv)
  have three: "sent (snd (fetch_data_with (Suc 2) ?srv ''indian'' ?rows ?w)) = [GET ?url None]"
    using two(1) by (simp only: p) simp
  have four: "slept (snd (fetch_data_with (Suc 2) ?srv ''indian'' ?rows ?w)) = []"
    using two(2) by simp
  have n: "(3::nat) = Suc 2"
    by simp
  show ?thesis
    unfolding n using one three four run_404 [unfolded n] by simp
qed

text \<open>
  C7 as stated fails: in the scenario of two files, one present and one answered with
  404, the summary has \<open>failed_count = 1\<close> (the claim says \<open>failed: 0\<close> and a separate
  \<open>notFound: 1\<close>; the summary has no such counter). With a budget of three attempts the
  request is sent and the 404 is received; with the default budget no request is sent
  at all, and the summary is the same.
\<close>

theorem not_found_counted_failed_counterexample:
  "fst (fetch_data_with 3 (\<lambda>n req. Reply 404 [] False) ''indian'' [''indian/2020/a.nc'', ''indian/2020/b.nc'']
      \<lparr>files = [''./argo_float_data'' \<mapsto> Dir, ''./argo_float_data/indian'' \<mapsto> Dir,
                ''./argo_float_data/indian/2020'' \<mapsto> Dir,
                ''./argo_float_data/indian/2020/a.nc'' \<mapsto> File ''x''],
       sent = [], slept = []\<rparr>)
     = Inr (Some \<lparr>total_files = 2, already_existing = 1, downloaded_count = 0, failed_count = 1\<rparr>, [''./argo_float_data/indian/2020/a.nc'', ''./argo_float_data/indian/2020/b.nc'']) \<and>
   sent (snd (fetch_data_with 3 (\<lambda>n req. Reply 404 [] False) ''indian'' [''indian/2020/a.nc'', ''indian/2020/b.nc'']
      \<lparr>files = [''./argo_float_data'' \<mapsto> Dir, ''./argo_float_data/indian'' \<mapsto> Dir,
                ''./argo_float_data/indian/2020'' \<mapsto> Dir,
                ''./argo_float_data/indian/2020/a.nc'' \<mapsto> File ''x''],
       sent = [], slept = []\<rparr>)) = [GET ''https://www.ncei.noaa.gov/data/oceans/argo/gadr/data/indian/2020/b.nc'' None] \<and>
   fst (fetch_data (\<lambda>n req. Reply 404 [] False) ''indian'' [''indian/2020/a.nc'', ''indian/2020/b.nc'']
      \<lparr>files = [''./argo_float_data'' \<mapsto> Dir, ''./argo_float_data/indian'' \<mapsto> Dir,
                ''./argo_float_data/indian/2020'' \<mapsto> Dir,
                ''./argo_float_data/indian/2020/a.nc'' \<mapsto> File ''x''],
       sent = [], slept = []\<rparr>)
     = Inr (Some \<lparr>total_files = 2, already_existing = 1, downloaded_count = 0, failed_count = 1\<rparr>, [''./argo_float_data/indian/2020/a.nc'', ''./argo_float_data/indian/2020/b.nc'']) \<and>
   sent (snd (fetch_data (\<lambda>n req. Reply 404 [] False) ''indian'' [''indian/2020/a.nc'', ''indian/2020/b.nc'']
      \<lparr>files = [''./argo_float_data'' \<mapsto> Dir, ''./argo_float_data/indian'' \<mapsto> Dir,
                ''./argo_float_data/indian/2020'' \<mapsto> Dir,
                ''./argo_float_data/indian/2020/a.nc'' \<mapsto> File ''x''],
       sent = [], slept = []\<rparr>)) = []"
  by code_simp

section \<open>The presence checks\<close>

lemma is_file_valid_iff:
  "is_file_valid store p \<longleftrightarrow> (\<exists>n. node_at store p = Some n \<and> 0 < size_of n)"
  by (cases "node_at store p") (simp_all add: is_file_valid_def)

lemma is_file_complete_iff:
  "is_file_complete head store p \<longleftrightarrow>
     (\<exists>n cl. node_at store p = Some n \<and> head = HeadReply 200 cl \<and>
        int (size_of n) = (case cl of None \<Rightarrow> 0 | Some k \<Rightarrow> k))"
proof (cases "node_at store p")
  case None
  then show ?thesis
    by (simp add: is_file_complete_def)
next
  case (Some n)
  show ?thesis
  proof (cases head)
    case HeadRaised
    with Some show ?thesis
      by (simp add: is_file_complete_def)
  next
    case (HeadReply status cl)
    show ?thesis
    proof (cases cl)
      case None
      with Some HeadReply show ?thesis
        by (simp add: is_file_complete_def)
    next
      case (Some k)
      have "0 \<le> int (size_of n)"
        by simp
      then have "(if k > 0 \<and> int (size_of n) = k then True
                  else if k = 0 \<and> int (size_of n) = 0 then True else False)
                 \<longleftrightarrow> int (size_of n) = k"
        by (cases "k > 0") auto
      with Some \<open>node_at store p = Some n\<close> HeadReply show ?thesis
        by (simp add: is_file_complete_def del: of_nat_eq_0_iff)
    qed
  qed
qed

section \<open>The requests of the index download\<close>

lemma attempt_sent:
  "\<exists>range more. sent (snd (attempt srv url p w)) = sent w @ GET url range # more"
proof -
  let ?size = "case node_at (files w) p of None \<Rightarrow> 0 | Some n \<Rightarrow> size_of n"
  let ?range = "if ?size > 0 then Some ?size else None"
  let ?w1 = "w\<lparr>sent := sent w @ [GET url ?range]\<rparr>"
  have first: "send srv (GET url ?range) w = (srv (length (sent w)) (GET url ?range), ?w1)"
    by (simp add: send_def)
  have "sent (snd (attempt srv url p w)) = sent w @ [GET url ?range]
      \<or> sent (snd (attempt srv url p w)) = sent w @ [GET url ?range, GET url None]"
    by (cases "srv (length (sent w)) (GET url ?range)")
       (auto simp: attempt_def Let_def send_def split: sum.splits response.splits)
  then show ?thesis
    by auto
qed

lemma cleanup_sent: "sent (cleanup p w) = sent w"
  by (simp add: cleanup_def sleep_def split: sum.splits)

lemma attempts_sent:
  "\<exists>reqs. sent (snd (attempts srv url p n w)) = sent w @ reqs"
proof (induction n arbitrary: w)
  case 0
  show ?case by simp
next
  case (Suc n)
  obtain ok w1 where a: "attempt srv url p w = (ok, w1)"
    by (cases "attempt srv url p w")
  obtain range more where s: "sent w1 = sent w @ GET url range # more"
    using attempt_sent [of srv url p w] a by auto
  show ?case
  proof (cases ok)
    case True
    then show ?thesis
      using a s by simp
  next
    case False
    obtain reqs where "sent (snd (attempts srv url p n (cleanup p w1))) = sent (cleanup p w1) @ reqs"
      using Suc.IH by blast
    then show ?thesis
      using a s False by (simp add: cleanup_sent)
  qed
qed

lemma attempts_Suc_sent:
  "\<exists>range more. sent (snd (attempts srv url p (Suc n) w)) = sent w @ GET url range # more"
proof -
  obtain ok w1 where a: "attempt srv url p w = (ok, w1)"
    by (cases "attempt srv url p w")
  obtain range more where s: "sent w1 = sent w @ GET url range # more"
    using attempt_sent [of srv url p w] a by auto
  show ?thesis
  proof (cases ok)
    case True
    then show ?thesis
      using a s by simp
  next
    case False
    obtain reqs where "sent (snd (attempts srv url p n (cleanup p w1))) = sent (cleanup p w1) @ reqs"
      using attempts_sent by blast
    then show ?thesis
      using a s False by (simp add: cleanup_sent)
  qed
qed

lemma attempts_not_Skipped: "fst (attempts srv url p n w) \<noteq> Skipped"
proof (induction n arbitrary: w)
  case 0
  show ?case by simp
next
  case (Suc n)
  obtain ok w1 where a: "attempt srv url p w = (ok, w1)"
    by (cases "attempt srv url p w")
  show ?case
    using a Suc.IH [of "cleanup p w1"] by (cases ok) simp_all
qed

lemma download_file_skips:
  assumes "fst (makedirs (dirname p) (files w)) = None"
    and "is_file_complete head (snd (makedirs (dirname p) (files w))) p"
  shows "download_file head srv url p w
           = (Inr Skipped, w\<lparr>files := snd (makedirs (dirname p) (files w))\<rparr>)"
  using assms by (cases "makedirs (dirname p) (files w)") (simp add: download_file_def)

lemma download_file_fetches:
  assumes "fst (makedirs (dirname p) (files w)) = None"
    and "\<not> is_file_complete head (snd (makedirs (dirname p) (files w))) p"
  shows "fst (download_file head srv url p w) \<in> {Inr Downloaded, Inr Failed} \<and>
         (\<exists>range more. sent (snd (download_file head srv url p w)) = sent w @ GET url range # more)"
proof -
  let ?w1 = "w\<lparr>files := snd (makedirs (dirname p) (files w))\<rparr>"
  obtain result w2 where a: "attempts srv url p MAX_RETRIES ?w1 = (result, w2)"
    by (cases "attempts srv url p MAX_RETRIES ?w1")
  have d: "download_file head srv url p w = (Inr result, w2)"
    using assms a by (cases "makedirs (dirname p) (files w)") (simp add: download_file_def)
  have "result \<noteq> Skipped"
    using attempts_not_Skipped [of srv url p MAX_RETRIES ?w1] a by simp
  then have r: "result = Downloaded \<or> result = Failed"
    by (cases result) simp_all
  have "\<exists>range more. sent w2 = sent ?w1 @ GET url range # more"
    using attempts_Suc_sent [of srv url p 2 ?w1] a by (simp add: MAX_RETRIES_def numeral_3_eq_3)
  then show ?thesis
    using d r by auto
qed

lemma download_file_raises:
  assumes "fst (makedirs (dirname p) (files w)) = Some e"
  shows "download_file head srv url p w
           = (Inl e, w\<lparr>files := snd (makedirs (dirname p) (files w))\<rparr>)"
  using assms by (cases "makedirs (dirname p) (files w)") (simp add: download_file_def)

section \<open>The scanner's download\<close>

lemma scanner_fails:
  assumes "fst (makedirs (dirname p) (files w)) \<noteq> None"
  shows "scanner_download_file srv url p w
           = (False, w\<lparr>files := snd (makedirs (dirname p) (files w))\<rparr>)"
  using assms by (cases "makedirs (dirname p) (files w)") (auto simp: scanner_download_file_def)

lemma scanner_skips:
  assumes "fst (makedirs (dirname p) (files w)) = None"
    and "path_exists (snd (makedirs (dirname p) (files w))) p"
  shows "scanner_download_file srv url p w
           = (True, w\<lparr>files := snd (makedirs (dirname p) (files w))\<rparr>)"
  using assms by (cases "makedirs (dirname p) (files w)") (simp add: scanner_download_file_def)

lemma scanner_requests:
  assumes "fst (makedirs (dirname p) (files w)) = None"
    and "\<not> path_exists (snd (makedirs (dirname p) (files w))) p"
  shows "sent (snd (scanner_download_file srv url p w)) = sent w @ [GET url None]"
  using assms
  by (cases "makedirs (dirname p) (files w)"; cases "srv (length (sent w)) (GET url None)")
     (auto simp: scanner_download_file_def send_def split: sum.splits)

text \<open>
  C4, as the code has it. There are three presence checks. \<open>is_file_valid\<close> (the
  catalog planner, which knows no expected size) holds exactly when the path exists
  and its size is greater than 0, and the planner makes a task exactly for the paths
  that fail it. \<open>is_file_complete\<close> (the index downloader) holds exactly when the path
  exists, the HEAD reply has status 200 and the local size equals its content length,
  taken as 0 when the header is absent. \<open>download_file\<close> of the index downloader
  first makes the parent directories, raising the error of \<open>os.makedirs\<close> if there is
  one; then it skips the path, sending no request, exactly when \<open>is_file_complete\<close>
  holds, and otherwise it sends at least one request. The scanner's \<open>download_file\<close>
  returns \<open>False\<close> when \<open>os.makedirs\<close> raises; otherwise it takes any existing path as
  present, whatever its size, and sends no request, and for a missing path it sends
  exactly one.
\<close>

theorem presence_checks:
  "(is_file_valid store p \<longleftrightarrow> (\<exists>n. node_at store p = Some n \<and> 0 < size_of n)) \<and>
   fst (plan store region fps)
     = map (\<lambda>fp. (BASE_URL @ fp, local_path_of region fp))
         (filter (\<lambda>fp. \<not> is_file_valid store (local_path_of region fp)) fps) \<and>
   (is_file_complete head store p \<longleftrightarrow>
      (\<exists>n cl. node_at store p = Some n \<and> head = HeadReply 200 cl \<and>
         int (size_of n) = (case cl of None \<Rightarrow> 0 | Some k \<Rightarrow> k))) \<and>
   (fst (makedirs (dirname p) (files w)) = Some e \<longrightarrow>
      download_file head srv url p w = (Inl e, w\<lparr>files := snd (makedirs (dirname p) (files w))\<rparr>)) \<and>
   (fst (makedirs (dirname p) (files w)) = None \<and>
    is_file_complete head (snd (makedirs (dirname p) (files w))) p \<longrightarrow>
      download_file head srv url p w
        = (Inr Skipped, w\<lparr>files := snd (makedirs (dirname p) (files w))\<rparr>)) \<and>
   (fst (makedirs (dirname p) (files w)) = None \<and>
    \<not> is_file_complete head (snd (makedirs (dirname p) (files w))) p \<longrightarrow>
      fst (download_file head srv url p w) \<in> {Inr Downloaded, Inr Failed} \<and>
      (\<exists>range more. sent (snd (download_file head srv url p w)) = sent w @ GET url range # more)) \<and>
   (fst (makedirs (dirname p) (files w)) \<noteq> None \<longrightarrow>
      scanner_download_file srv url p w
        = (False, w\<lparr>files := snd (makedirs (dirname p) (files w))\<rparr>)) \<and>
   (fst (makedirs (dirname p) (files w)) = None \<and>
    path_exists (snd (makedirs (dirname p) (files w))) p \<longrightarrow>
      scanner_download_file srv url p w
        = (True, w\<lparr>files := snd (makedirs (dirname p) (files w))\<rparr>)) \<and>
   (fst (makedirs (dirname p) (files w)) = None \<and>
    \<not> path_exists (snd (makedirs (dirname p) (files w))) p \<longrightarrow>
      sent (snd (scanner_download_file srv url p w)) = sent w @ [GET url None])"
proof -
  have c1: "is_file_valid store p \<longleftrightarrow> (\<exists>n. node_at store p = Some n \<and> 0 < size_of n)"
    by (rule is_file_valid_iff)
  have c2: "fst (plan store region fps)
     = map (\<lambda>fp. (BASE_URL @ fp, local_path_of region fp))
         (filter (\<lambda>fp. \<not> is_file_valid store (local_path_of region fp)) fps)"
    by (rule plan_tasks)
  have c3: "is_file_complete head store p \<longleftrightarrow>
      (\<exists>n cl. node_at store p = Some n \<and> head = HeadReply 200 cl \<and>
         int (size_of n) = (case cl of None \<Rightarrow> 0 | Some k \<Rightarrow> k))"
    by (rule is_file_complete_iff)
  have c4: "fst (makedirs (dirname p) (files w)) = Some e \<longrightarrow>
      download_file head srv url p w = (Inl e, w\<lparr>files := snd (makedirs (dirname p) (files w))\<rparr>)"
    using download_file_raises by simp
  have c5: "fst (makedirs (dirname p) (files w)) = None \<and>
    is_file_complete head (snd (makedirs (dirname p) (files w))) p \<longrightarrow>
      download_file head srv url p w
        = (Inr Skipped, w\<lparr>files := snd (makedirs (dirname p) (files w))\<rparr>)"
    using download_file_skips by simp
  have c6: "fst (makedirs (dirname p) (files w)) = None \<and>
    \<not> is_file_complete head (snd (makedirs (dirname p) (files w))) p \<longrightarrow>
      fst (download_file head srv url p w) \<in> {Inr Downloaded, Inr Failed} \<and>
      (\<exists>range more. sent (snd (download_file head srv url p w)) = sent w @ GET url range # more)"
    using download_file_fetches by simp
  have c7: "fst (makedirs (dirname p) (files w)) \<noteq> None \<longrightarrow>
      scanner_download_file srv url p w
        = (False, w\<lparr>files := snd (makedirs (dirname p) (files w))\<rparr>)"
    using scanner_fails by simp
  have c8: "fst (makedirs (dirname p) (files w)) = None \<and>
    path_exists (snd (makedirs (dirname p) (files w))) p \<longrightarrow>
      scanner_download_file srv url p w
        = (True, w\<lparr>files := snd (makedirs (dirname p) (files w))\<rparr>)"
    using scanner_skips by simp
  have c9: "fst (makedirs (dirname p) (files w)) = None \<and>
    \<not> path_exists (snd (makedirs (dirname p) (files w))) p \<longrightarrow>
      sent (snd (scanner_download_file srv url p w)) = sent w @ [GET url None]"
    using scanner_requests by simp
  show ?thesis
    by (intro conjI) (rule c1, rule c2, rule c3, rule c4, rule c5, rule c6, rule c7, rule c8, rule c9)
qed

lemma index_dirs_present:
  "fst (makedirs (dirname ''./argo_index/indian/2019/x_argoinv.txt'') (files \<lparr>files = [''./argo_index'' \<mapsto> Dir, ''./argo_index/indian'' \<mapsto> Dir, ''./argo_index/indian/2019'' \<mapsto> Dir, ''./argo_index/indian/2019/x_argoinv.txt'' \<mapsto> File ''ab''], sent = [], slept = []\<rparr>)) = None"
  by code_simp

lemma index_complete:
  "is_file_complete (HeadReply 200 (Some 2)) (snd (makedirs (dirname ''./argo_index/indian/2019/x_argoinv.txt'') (files \<lparr>files = [''./argo_index'' \<mapsto> Dir, ''./argo_index/indian'' \<mapsto> Dir, ''./argo_index/indian/2019'' \<mapsto> Dir, ''./argo_index/indian/2019/x_argoinv.txt'' \<mapsto> File ''ab''], sent = [], slept = []\<rparr>))) ''./argo_index/indian/2019/x_argoinv.txt''"
  by code_simp

lemma index_incomplete:
  "\<not> is_file_complete (HeadReply 200 None) (snd (makedirs (dirname ''./argo_index/indian/2019/x_argoinv.txt'') (files \<lparr>files = [''./argo_index'' \<mapsto> Dir, ''./argo_index/indian'' \<mapsto> Dir, ''./argo_index/indian/2019'' \<mapsto> Dir, ''./argo_index/indian/2019/x_argoinv.txt'' \<mapsto> File ''ab''], sent = [], slept = []\<rparr>))) ''./argo_index/indian/2019/x_argoinv.txt''"
  by code_simp

lemma index_blocked:
  "fst (makedirs (dirname ''./argo_index/indian/2019/x_argoinv.txt'') (files \<lparr>files = [''./argo_index'' \<mapsto> File ''x''], sent = [], slept = []\<rparr>)) = Some NotADirectoryError"
  by code_simp

lemma scanner_dirs_present:
  "fst (makedirs (dirname ''argo_float_data/indian/2020/a.nc'') (files \<lparr>files = [''argo_float_data'' \<mapsto> Dir, ''argo_float_data/indian'' \<mapsto> Dir, ''argo_float_data/indian/2020'' \<mapsto> Dir, ''argo_float_data/indian/2020/a.nc'' \<mapsto> File ''ab''], sent = [], slept = []\<rparr>)) = None
   \<and> path_exists (snd (makedirs (dirname ''argo_float_data/indian/2020/a.nc'') (files \<lparr>files = [''argo_float_data'' \<mapsto> Dir, ''argo_float_data/indian'' \<mapsto> Dir, ''argo_float_data/indian/2020'' \<mapsto> Dir, ''argo_float_data/indian/2020/a.nc'' \<mapsto> File ''ab''], sent = [], slept = []\<rparr>))) ''argo_float_data/indian/2020/a.nc''"
  by code_simp

lemma scanner_dirs_made:
  "fst (makedirs (dirname ''argo_float_data/indian/2020/a.nc'') (files \<lparr>files = Map.empty, sent = [], slept = []\<rparr>)) = None
   \<and> \<not> path_exists (snd (makedirs (dirname ''argo_float_data/indian/2020/a.nc'') (files \<lparr>files = Map.empty, sent = [], slept = []\<rparr>))) ''argo_float_data/indian/2020/a.nc''"
  by code_simp

lemma scanner_blocked:
  "fst (makedirs (dirname ''argo_float_data/indian/2020/a.nc'') (files \<lparr>files = [''argo_float_data'' \<mapsto> File ''x''], sent = [], slept = []\<rparr>)) \<noteq> None"
  by code_simp

theorem presence_checks_witness:
  "is_file_valid (files \<lparr>files = [''./argo_index'' \<mapsto> Dir, ''./argo_index/indian'' \<mapsto> Dir, ''./argo_index/indian/2019'' \<mapsto> Dir, ''./argo_index/indian/2019/x_argoinv.txt'' \<mapsto> File ''ab''], sent = [], slept = []\<rparr>) ''./argo_index/indian/2019/x_argoinv.txt'' \<and>
   is_file_complete (HeadReply 200 (Some 2)) (files \<lparr>files = [''./argo_index'' \<mapsto> Dir, ''./argo_index/indian'' \<mapsto> Dir, ''./argo_index/indian/2019'' \<mapsto> Dir, ''./argo_index/indian/2019/x_argoinv.txt'' \<mapsto> File ''ab''], sent = [], slept = []\<rparr>) ''./argo_index/indian/2019/x_argoinv.txt'' \<and>
   fst (download_file (HeadReply 200 (Some 2)) (\<lambda>n req. Raised) ''https://www.ncei.noaa.gov/data/oceans/argo/gadr/inv/basins/indian/2019/x_argoinv.txt'' ''./argo_index/indian/2019/x_argoinv.txt'' \<lparr>files = [''./argo_index'' \<mapsto> Dir, ''./argo_index/indian'' \<mapsto> Dir, ''./argo_index/indian/2019'' \<mapsto> Dir, ''./argo_index/indian/2019/x_argoinv.txt'' \<mapsto> File ''ab''], sent = [], slept = []\<rparr>) = Inr Skipped \<and>
   sent (snd (download_file (HeadReply 200 (Some 2)) (\<lambda>n req. Raised) ''https://www.ncei.noaa.gov/data/oceans/argo/gadr/inv/basins/indian/2019/x_argoinv.txt'' ''./argo_index/indian/2019/x_argoinv.txt'' \<lparr>files = [''./argo_index'' \<mapsto> Dir, ''./argo_index/indian'' \<mapsto> Dir, ''./argo_index/indian/2019'' \<mapsto> Dir, ''./argo_index/indian/2019/x_argoinv.txt'' \<mapsto> File ''ab''], sent = [], slept = []\<rparr>)) = [] \<and>
   fst (download_file (HeadReply 200 None) (\<lambda>n req. Raised) ''https://www.ncei.noaa.gov/data/oceans/argo/gadr/inv/basins/indian/2019/x_argoinv.txt'' ''./argo_index/indian/2019/x_argoinv.txt'' \<lparr>files = [''./argo_index'' \<mapsto> Dir, ''./argo_index/indian'' \<mapsto> Dir, ''./argo_index/indian/2019'' \<mapsto> Dir, ''./argo_index/indian/2019/x_argoinv.txt'' \<mapsto> File ''ab''], sent = [], slept = []\<rparr>) \<in> {Inr Downloaded, Inr Failed} \<and>
   (\<exists>range more. sent (snd (download_file (HeadReply 200 None) (\<lambda>n req. Raised) ''https://www.ncei.noaa.gov/data/oceans/argo/gadr/inv/basins/indian/2019/x_argoinv.txt'' ''./argo_index/indian/2019/x_argoinv.txt'' \<lparr>files = [''./argo_index'' \<mapsto> Dir, ''./argo_index/indian'' \<mapsto> Dir, ''./argo_index/indian/2019'' \<mapsto> Dir, ''./argo_index/indian/2019/x_argoinv.txt'' \<mapsto> File ''ab''], sent = [], slept = []\<rparr>))
       = GET ''https://www.ncei.noaa.gov/data/oceans/argo/gadr/inv/basins/indian/2019/x_argoinv.txt'' range # more) \<and>
   fst (download_file (HeadReply 200 (Some 2)) (\<lambda>n req. Raised) ''https://www.ncei.noaa.gov/data/oceans/argo/gadr/inv/basins/indian/2019/x_argoinv.txt'' ''./argo_index/indian/2019/x_argoinv.txt'' \<lparr>files = [''./argo_index'' \<mapsto> File ''x''], sent = [], slept = []\<rparr>) = Inl NotADirectoryError \<and>
   fst (scanner_download_file (\<lambda>n req. Reply 200 ''abcd'' False) ''https://www.ncei.noaa.gov/data/oceans/argo/gadr/data/indian/2020/a.nc'' ''argo_float_data/indian/2020/a.nc'' \<lparr>files = [''argo_float_data'' \<mapsto> File ''x''], sent = [], slept = []\<rparr>) = False \<and>
   fst (scanner_download_file (\<lambda>n req. Reply 200 ''abcd'' False) ''https://www.ncei.noaa.gov/data/oceans/argo/gadr/data/indian/2020/a.nc'' ''argo_float_data/indian/2020/a.nc'' \<lparr>files = [''argo_float_data'' \<mapsto> Dir, ''argo_float_data/indian'' \<mapsto> Dir, ''argo_float_data/indian/2020'' \<mapsto> Dir, ''argo_float_data/indian/2020/a.nc'' \<mapsto> File ''ab''], sent = [], slept = []\<rparr>) = True \<and>
   sent (snd (scanner_download_file (\<lambda>n req. Reply 200 ''abcd'' False) ''https://www.ncei.noaa.gov/data/oceans/argo/gadr/data/indian/2020/a.nc'' ''argo_float_data/indian/2020/a.nc'' \<lparr>files = [''argo_float_data'' \<mapsto> Dir, ''argo_float_data/indian'' \<mapsto> Dir, ''argo_float_data/indian/2020'' \<mapsto> Dir, ''argo_float_data/indian/2020/a.nc'' \<mapsto> File ''ab''], sent = [], slept = []\<rparr>)) = [] \<and>
   sent (snd (scanner_download_file (\<lambda>n req. Reply 200 ''abcd'' False) ''https://www.ncei.noaa.gov/data/oceans/argo/gadr/data/indian/2020/a.nc'' ''argo_float_data/indian/2020/a.nc'' \<lparr>files = Map.empty, sent = [], slept = []\<rparr>)) = [GET ''https://www.ncei.noaa.gov/data/oceans/argo/gadr/data/indian/2020/a.nc'' None]"
proof -
  let ?idx = "''./argo_index/indian/2019/x_argoinv.txt''"
  let ?url = "''https://www.ncei.noaa.gov/data/oceans/argo/gadr/inv/basins/indian/2019/x_argoinv.txt''"
  let ?sc = "''argo_float_data/indian/2020/a.nc''"
  let ?surl = "''https://www.ncei.noaa.gov/data/oceans/argo/gadr/data/indian/2020/a.nc''"
  let ?full = "\<lparr>files = [''./argo_index'' \<mapsto> Dir, ''./argo_index/indian'' \<mapsto> Dir, ''./argo_index/indian/2019'' \<mapsto> Dir, ''./argo_index/indian/2019/x_argoinv.txt'' \<mapsto> File ''ab''], sent = [], slept = []\<rparr>"
  let ?blocked = "\<lparr>files = [''./argo_index'' \<mapsto> File ''x''], sent = [], slept = []\<rparr>"
  let ?there = "\<lparr>files = [''argo_float_data'' \<mapsto> Dir, ''argo_float_data/indian'' \<mapsto> Dir, ''argo_float_data/indian/2020'' \<mapsto> Dir, ''argo_float_data/indian/2020/a.nc'' \<mapsto> File ''ab''], sent = [], slept = []\<rparr>"
  let ?closed = "\<lparr>files = [''argo_float_data'' \<mapsto> File ''x''], sent = [], slept = []\<rparr>"
  let ?empty = "\<lparr>files = Map.empty, sent = [], slept = []\<rparr>"
  let ?down = "\<lambda>n req. Raised :: response"
  let ?up = "\<lambda>n req. Reply 200 ''abcd'' False :: response"
  note a = presence_checks [where store = "files ?full" and p = ?idx and head = "HeadReply 200 (Some 2)"
      and w = ?full and srv = ?down and url = ?url]
  have a1: "is_file_valid (files ?full) ?idx"
    using a by (simp add: node_at_def size_of_def)
  have a2: "is_file_complete (HeadReply 200 (Some 2)) (files ?full) ?idx"
    using a by (simp add: node_at_def size_of_def)
  have a3: "download_file (HeadReply 200 (Some 2)) ?down ?url ?idx ?full
      = (Inr Skipped, ?full\<lparr>files := snd (makedirs (dirname ?idx) (files ?full))\<rparr>)"
    using a index_dirs_present index_complete by blast
  note b = presence_checks [where p = ?idx and head = "HeadReply 200 None" and w = ?full and srv = ?down and url = ?url]
  have b1: "fst (download_file (HeadReply 200 None) ?down ?url ?idx ?full) \<in> {Inr Downloaded, Inr Failed} \<and>
      (\<exists>range more. sent (snd (download_file (HeadReply 200 None) ?down ?url ?idx ?full))
         = sent ?full @ GET ?url range # more)"
    using b index_dirs_present index_incomplete by blast
  note c = presence_checks [where p = ?idx and head = "HeadReply 200 (Some 2)" and w = ?blocked and srv = ?down
      and url = ?url and e = NotADirectoryError]
  have c1: "download_file (HeadReply 200 (Some 2)) ?down ?url ?idx ?blocked
      = (Inl NotADirectoryError, ?blocked\<lparr>files := snd (makedirs (dirname ?idx) (files ?blocked))\<rparr>)"
    using c index_blocked by blast
  note d = presence_checks [where p = ?sc and w = ?closed and srv = ?up and url = ?surl]
  have d1: "scanner_download_file ?up ?surl ?sc ?closed
      = (False, ?closed\<lparr>files := snd (makedirs (dirname ?sc) (files ?closed))\<rparr>)"
    using d scanner_blocked by blast
  note e = presence_checks [where p = ?sc and w = ?there and srv = ?up and url = ?surl]
  have e1: "scanner_download_file ?up ?surl ?sc ?there
      = (True, ?there\<lparr>files := snd (makedirs (dirname ?sc) (files ?there))\<rparr>)"
    using e scanner_dirs_present by blast
  note f = presence_checks [where p = ?sc and w = ?empty and srv = ?up and url = ?surl]
  have f1: "sent (snd (scanner_download_file ?up ?surl ?sc ?empty)) = sent ?empty @ [GET ?surl None]"
    using f scanner_dirs_made by blast
  show ?thesis
    using a1 a2 a3 b1 c1 d1 e1 f1 by simp
qed

text \<open>
  C4 as stated fails. The scanner's \<open>download_file\<close> leaves an existing file of length
  zero alone: it returns \<open>True\<close> and sends no request, though the remote side has the
  file. And the index downloader does not take a file that is not empty as complete
  when the HEAD reply carries no content length: it fetches it again, resuming at its
  size.
\<close>

theorem presence_checks_counterexample:
  "fst (scanner_download_file (\<lambda>n req. Reply 200 ''abcd'' False) ''https://www.ncei.noaa.gov/data/oceans/argo/gadr/data/indian/2020/a.nc'' ''argo_float_data/indian/2020/a.nc'' \<lparr>files = [''argo_float_data'' \<mapsto> Dir, ''argo_float_data/indian'' \<mapsto> Dir, ''argo_float_data/indian/2020'' \<mapsto> Dir, ''argo_float_data/indian/2020/a.nc'' \<mapsto> File []], sent = [], slept = []\<rparr>) = True \<and>
   sent (snd (scanner_download_file (\<lambda>n req. Reply 200 ''abcd'' False) ''https://www.ncei.noaa.gov/data/oceans/argo/gadr/data/indian/2020/a.nc'' ''argo_float_data/indian/2020/a.nc'' \<lparr>files = [''argo_float_data'' \<mapsto> Dir, ''argo_float_data/indian'' \<mapsto> Dir, ''argo_float_data/indian/2020'' \<mapsto> Dir, ''argo_float_data/indian/2020/a.nc'' \<mapsto> File []], sent = [], slept = []\<rparr>)) = [] \<and>
   files (snd (scanner_download_file (\<lambda>n req. Reply 200 ''abcd'' False) ''https://www.ncei.noaa.gov/data/oceans/argo/gadr/data/indian/2020/a.nc'' ''argo_float_data/indian/2020/a.nc'' \<lparr>files = [''argo_float_data'' \<mapsto> Dir, ''argo_float_data/indian'' \<mapsto> Dir, ''argo_float_data/indian/2020'' \<mapsto> Dir, ''argo_float_data/indian/2020/a.nc'' \<mapsto> File []], sent = [], slept = []\<rparr>)) ''argo_float_data/indian/2020/a.nc'' = Some (File []) \<and>
   fst (download_file (HeadReply 200 None) (\<lambda>n req. Reply 206 ''cd'' False) ''https://www.ncei.noaa.gov/data/oceans/argo/gadr/inv/basins/indian/2019/x_argoinv.txt'' ''./argo_index/indian/2019/x_argoinv.txt'' \<lparr>files = [''./argo_index'' \<mapsto> Dir, ''./argo_index/indian'' \<mapsto> Dir, ''./argo_index/indian/2019'' \<mapsto> Dir, ''./argo_index/indian/2019/x_argoinv.txt'' \<mapsto> File ''ab''], sent = [], slept = []\<rparr>) = Inr Downloaded \<and>
   sent (snd (download_file (HeadReply 200 None) (\<lambda>n req. Reply 206 ''cd'' False) ''https://www.ncei.noaa.gov/data/oceans/argo/gadr/inv/basins/indian/2019/x_argoinv.txt'' ''./argo_index/indian/2019/x_argoinv.txt'' \<lparr>files = [''./argo_index'' \<mapsto> Dir, ''./argo_index/indian'' \<mapsto> Dir, ''./argo_index/indian/2019'' \<mapsto> Dir, ''./argo_index/indian/2019/x_argoinv.txt'' \<mapsto> File ''ab''], sent = [], slept = []\<rparr>))
     = [GET ''https://www.ncei.noaa.gov/data/oceans/argo/gadr/inv/basins/indian/2019/x_argoinv.txt'' (Some 2)] \<and>
   files (snd (download_file (HeadReply 200 None) (\<lambda>n req. Reply 206 ''cd'' False) ''https://www.ncei.noaa.gov/data/oceans/argo/gadr/inv/basins/indian/2019/x_argoinv.txt'' ''./argo_index/indian/2019/x_argoinv.txt'' \<lparr>files = [''./argo_index'' \<mapsto> Dir, ''./argo_index/indian'' \<mapsto> Dir, ''./argo_index/indian/2019'' \<mapsto> Dir, ''./argo_index/indian/2019/x_argoinv.txt'' \<mapsto> File ''ab''], sent = [], slept = []\<rparr>)) ''./argo_index/indian/2019/x_argoinv.txt'' = Some (File ''abcd'')"
  by code_simp

end
